theory Spec2Isabelle
  imports Main
begin

section \<open>Data model\<close>

subsection \<open>JSON values and their text\<close>

text \<open>
  A JSON value as \<^verbatim>\<open>JSON.stringify\<close> walks it: the properties of an object are a list,
  in the order in which the object enumerates them.
\<close>

datatype json =
    JNull
  | JBoolean bool
  | JNumber nat
  | JString string
  | JArray "json list"
  | JObject "(string \<times> json) list"

text \<open>The decimal digits of a number.\<close>

fun decimal :: "nat \<Rightarrow> string" where
  "decimal n =
     (if n < 10 then [''0123456789'' ! n]
      else decimal (n div 10) @ [''0123456789'' ! (n mod 10)])"

declare decimal.simps [simp del]

text \<open>
  A string literal of \<^verbatim>\<open>JSON.stringify\<close>: between double quotes, with the double quote,
  the backslash and the control characters escaped.
\<close>

definition hex :: "nat \<Rightarrow> char" where
  "hex n = ''0123456789abcdef'' ! n"

definition escape :: "char \<Rightarrow> string" where
  "escape c =
     (if c = CHR 0x22 then [CHR 0x5C, CHR 0x22]
      else if c = CHR 0x5C then [CHR 0x5C, CHR 0x5C]
      else if c = CHR 0x08 then [CHR 0x5C, CHR ''b'']
      else if c = CHR 0x09 then [CHR 0x5C, CHR ''t'']
      else if c = CHR 0x0A then [CHR 0x5C, CHR ''n'']
      else if c = CHR 0x0C then [CHR 0x5C, CHR ''f'']
      else if c = CHR 0x0D then [CHR 0x5C, CHR ''r'']
      else if of_char c < (32 :: nat)
        then [CHR 0x5C, CHR ''u'', CHR ''0'', CHR ''0'', hex (of_char c div 16), hex (of_char c mod 16)]
      else [c])"

definition quote :: "string \<Rightarrow> string" where
  "quote s = [CHR 0x22] @ concat (map escape s) @ [CHR 0x22]"

text \<open>
  \<^verbatim>\<open>JSON.stringify\<close> without indentation: the elements of an array and the properties of
  an object in their order, separated by commas. A property whose value is
  \<^verbatim>\<open>undefined\<close> is left out by \<^verbatim>\<open>JSON.stringify\<close>; such a property is not in the list.
\<close>

fun JSON_stringify :: "json \<Rightarrow> string"
  and stringify_elements :: "json list \<Rightarrow> string"
  and stringify_properties :: "(string \<times> json) list \<Rightarrow> string" where
  "JSON_stringify JNull = ''null''"
| "JSON_stringify (JBoolean b) = (if b then ''true'' else ''false'')"
| "JSON_stringify (JNumber n) = decimal n"
| "JSON_stringify (JString s) = quote s"
| "JSON_stringify (JArray xs) = ''['' @ stringify_elements xs @ '']''"
| "JSON_stringify (JObject ps) = ''{'' @ stringify_properties ps @ ''}''"
| "stringify_elements [] = []"
| "stringify_elements [x] = JSON_stringify x"
| "stringify_elements (x # y # ys) = JSON_stringify x @ '','' @ stringify_elements (y # ys)"
| "stringify_properties [] = []"
| "stringify_properties [(k, v)] = quote k @ '':'' @ JSON_stringify v"
| "stringify_properties ((k, v) # p # ps) =
     quote k @ '':'' @ JSON_stringify v @ '','' @ stringify_properties (p # ps)"

subsection \<open>Kubernetes API objects\<close>

text \<open>
  The objects of \<^verbatim>\<open>@kubernetes/client-node\<close> that the cluster repository reads and
  writes, with the fields the repository touches named as in the client library. The
  client declares \<^verbatim>\<open>metadata\<close>, \<^verbatim>\<open>spec\<close>, \<^verbatim>\<open>template\<close> and
  \<^verbatim>\<open>containers\<close> as always present, so they are plain fields here. The properties
  the repository never reads are kept with their values, as a list.

  A JavaScript object also has an order in which it enumerates its properties, and
  \<^verbatim>\<open>JSON.stringify\<close> follows it. Every object that the repository copies as it is
  carries this order as the list of its property names (the \<open>keys\<close> field): the
  properties named there come first, in that order, and the others follow in the order
  of the record. The repository reads and writes properties by name only, so it never
  changes the order of an object it was given.
\<close>

record V1Container =
  container_name :: string
  container_image :: string
  container_other :: "(string \<times> json) list"
  container_keys :: "string list"

record V1PodSpec =
  containers :: "V1Container list"
  podspec_other :: "(string \<times> json) list"
  podspec_keys :: "string list"

record V1ObjectMeta =
  meta_name :: string
  meta_namespace :: "string option"
  annotations :: "(string \<times> string) list option"
  labels :: "(string \<times> string) list option"
  uid :: "string option"
  resourceVersion :: "string option"
  creationTimestamp :: "string option"
  generation :: "nat option"
  meta_keys :: "string list"

record V1PodTemplateSpec =
  template_metadata :: "V1ObjectMeta option"
  template_spec :: V1PodSpec
  template_keys :: "string list"

record V1beta2DeploymentSpec =
  replicas :: "nat option"
  template :: V1PodTemplateSpec
  deploymentspec_other :: "(string \<times> json) list"
  spec_keys :: "string list"

record V1beta2DeploymentStatus =
  availableReplicas :: "nat option"
  observedGeneration :: "nat option"

record V1beta2Deployment =
  apiVersion :: "string option"
  kind :: "string option"
  metadata :: V1ObjectMeta
  spec :: V1beta2DeploymentSpec
  status :: "V1beta2DeploymentStatus option"

record V1ContainerStatus =
  restartCount :: nat

record V1PodCondition =
  condition_type :: string
  condition_status :: string

record V1PodStatus =
  containerStatuses :: "V1ContainerStatus list option"
  conditions :: "V1PodCondition list option"

record V1Pod =
  pod_metadata :: V1ObjectMeta
  pod_spec :: V1PodSpec
  pod_status :: V1PodStatus

record V1Namespace =
  namespace_metadata :: V1ObjectMeta

record V1HorizontalPodAutoscaler =
  hpa_metadata :: V1ObjectMeta
  hpa_minReplicas :: nat
  hpa_maxReplicas :: nat
  hpa_currentReplicas :: nat

subsection \<open>The repository's own model\<close>

text \<open>
  Modelled from the spec: the model classes the repository imports (\<^verbatim>\<open>Image\<close>,
  \<^verbatim>\<open>Deployment\<close>, \<^verbatim>\<open>Pod\<close>, \<^verbatim>\<open>Scaler\<close>, \<^verbatim>\<open>ServerGroup\<close>,
  \<^verbatim>\<open>ClusterSnapshot\<close>) and the event of the event module are declared in files that are
  not among the sources. Their fields are those of the spec (3 and 6), which are also the
  ones the repository reads and writes. An optional field is an \<open>option\<close>.
\<close>

record Image =
  url :: string
  image_name :: string
  tag :: "string option"

record Deployment =
  deployment_name :: string
  deployment_image :: "Image option"

record Pod =
  pod_name :: string
  pod_image :: "Image option"
  restarts :: "nat option"
  ready :: bool

record Replicas =
  replicas_current :: nat
  replicas_minimum :: nat
  replicas_maximum :: nat

record Scaler =
  scaler_name :: string
  scaler_replicas :: Replicas

record ServerGroup =
  cluster :: string
  namespace :: "string option"

record SnapshotDeployment =
  snapshot_name :: string
  snapshot_data :: V1beta2Deployment

record ClusterSnapshot =
  deployments :: "SnapshotDeployment list"

record EventField =
  field_value :: string
  field_title :: string

record Event =
  message :: string
  timestamp :: nat
  topics :: "string list"
  description :: string
  event_fields :: "EventField list"

subsection \<open>Failures\<close>

text \<open>
  Everything that can be thrown or rejected: the \<^verbatim>\<open>Error\<close> of \<^verbatim>\<open>getConfig\<close>, a
  \<^verbatim>\<open>TypeError\<close> on reading or writing a property of \<^verbatim>\<open>undefined\<close>, and a
  rejected request of the Kubernetes client, which carries a message.
\<close>

datatype error = Error string | TypeError string | ApiError string

subsection \<open>The environment of the repository\<close>

text \<open>
  A \<^verbatim>\<open>KubeConfig\<close> as \<^verbatim>\<open>getServer\<close> reads it: the server of the context's
  current cluster, or nothing when \<^verbatim>\<open>getCurrentCluster()\<close> is null.
\<close>

record KubeConfig =
  currentCluster :: "string option"

text \<open>One \<^verbatim>\<open>replaceNamespacedDeployment\<close> request as it leaves the repository.\<close>

record ReplaceRequest =
  request_server :: string
  request_name :: string
  request_namespace :: string
  request_body :: V1beta2Deployment

text \<open>
  What a repository is constructed with (\<^verbatim>\<open>configs\<close>, a map in insertion order, and
  \<^verbatim>\<open>allowedNamespaces\<close>) and what it calls: the Kubernetes API and
  \<^verbatim>\<open>Date.now\<close>. The API is external, so every method is a parameter that answers
  with a response body or a rejection. The answer to a replace request may depend on all
  earlier requests and their answers; what the namespace listing reports may depend on
  the time of the request.
\<close>

record Env =
  configs :: "(string \<times> KubeConfig) list"
  allowedNamespaces :: "string list option"
  listNamespace :: "string \<Rightarrow> nat \<Rightarrow> error + V1Namespace list"
  listNamespacedPod :: "string \<Rightarrow> string \<Rightarrow> error + V1Pod list"
  listNamespacedDeployment :: "string \<Rightarrow> string \<Rightarrow> error + V1beta2Deployment list"
  listNamespacedHorizontalPodAutoscaler ::
    "string \<Rightarrow> string \<Rightarrow> error + V1HorizontalPodAutoscaler list"
  readNamespacedDeployment :: "string \<Rightarrow> string \<Rightarrow> string \<Rightarrow> error + V1beta2Deployment"
  replaceResponse ::
    "(ReplaceRequest \<times> (error + V1beta2Deployment)) list \<Rightarrow> ReplaceRequest
       \<Rightarrow> error + V1beta2Deployment"
  Date_now :: nat

text \<open>
  The effects of the repository on the outside: the replace requests sent so far, each
  with its answer, and the events handed to the event module.
\<close>

record World =
  exchanges :: "(ReplaceRequest \<times> (error + V1beta2Deployment)) list"
  events :: "Event list"

section \<open>The Kubernetes cluster repository\<close>

subsection \<open>Pure helpers\<close>

text \<open>
  \<^verbatim>\<open>String.prototype.split\<close> with a separator that matches exactly one character
  (\<^verbatim>\<open>"/"\<close>, or the regular expression \<^verbatim>\<open>/@|:/\<close>) and no limit: the pieces
  between the separators, in order; the result is never empty, and the empty string
  splits into one empty piece.
\<close>

fun split :: "(char \<Rightarrow> bool) \<Rightarrow> string \<Rightarrow> string list" where
  "split sep [] = [[]]"
| "split sep (c # cs) =
     (if sep c then [] # split sep cs
      else (case split sep cs of [] \<Rightarrow> [[c]] | piece # pieces \<Rightarrow> (c # piece) # pieces))"

text \<open>
  \<^verbatim>\<open>createImage\<close>: the image of the first container. \<^verbatim>\<open>imageAndUrl[0]\<close> and
  \<^verbatim>\<open>imageParts[imageParts.length - 1]\<close> read a list that \<^const>\<open>split\<close> never
  returns empty (lemma \<open>split_not_Nil\<close>), so \<^const>\<open>hd\<close> and \<^const>\<open>last\<close> are
  the reads the source makes. The returned object has no \<^verbatim>\<open>tag\<close>.
\<close>

definition createImage :: "V1Container list option \<Rightarrow> Image option" where
  "createImage cs =
     (case cs of
        None \<Rightarrow> None
      | Some [] \<Rightarrow> None
      | Some (c # _) \<Rightarrow>
          (let url = container_image c;
               imageAndUrl = split (\<lambda>x. x = CHR ''@'' \<or> x = CHR '':'') url;
               imageParts = split (\<lambda>x. x = CHR ''/'') (hd imageAndUrl);
               name = last imageParts
           in Some \<lparr>url = url, image_name = name, tag = None\<rparr>))"

text \<open>
  \<^verbatim>\<open>minifyDeployment\<close> builds a fresh object that has only \<^verbatim>\<open>metadata\<close> (with
  only \<^verbatim>\<open>name\<close>, \<^verbatim>\<open>namespace\<close> and \<^verbatim>\<open>annotations\<close>) and \<^verbatim>\<open>spec\<close>: every
  other property is absent from the result.
\<close>

definition minifyDeployment :: "V1beta2Deployment \<Rightarrow> V1beta2Deployment" where
  "minifyDeployment deployment =
     \<lparr>apiVersion = None,
      kind = None,
      metadata =
        \<lparr>meta_name = meta_name (metadata deployment),
         meta_namespace = meta_namespace (metadata deployment),
         annotations = annotations (metadata deployment),
         labels = None, uid = None, resourceVersion = None,
         creationTimestamp = None, generation = None,
         meta_keys = [''name'', ''namespace'', ''annotations'']\<rparr>,
      spec = spec deployment,
      status = None\<rparr>"

text \<open>
  The objects as \<^verbatim>\<open>JSON.stringify\<close> sees them. The properties of an object are those
  that have a value, first the ones its \<open>keys\<close> name, in that order, then the others.
\<close>

definition property :: "string \<Rightarrow> json option \<Rightarrow> (string \<times> json) list" where
  "property k v = (case v of None \<Rightarrow> [] | Some x \<Rightarrow> [(k, x)])"

definition propertiesInOrder :: "string list \<Rightarrow> (string \<times> json) list \<Rightarrow> json" where
  "propertiesInOrder keys properties =
     JObject (concat (map (\<lambda>k. property k (map_of properties k)) (remdups keys))
              @ filter (\<lambda>p. fst p \<notin> set keys) properties)"

definition stringMapJSON :: "(string \<times> string) list \<Rightarrow> json" where
  "stringMapJSON m = JObject (map (\<lambda>kv. (fst kv, JString (snd kv))) m)"

definition containerJSON :: "V1Container \<Rightarrow> json" where
  "containerJSON c =
     propertiesInOrder (container_keys c)
       ([(''name'', JString (container_name c)), (''image'', JString (container_image c))]
        @ container_other c)"

definition podSpecJSON :: "V1PodSpec \<Rightarrow> json" where
  "podSpecJSON s =
     propertiesInOrder (podspec_keys s)
       ([(''containers'', JArray (map containerJSON (containers s)))] @ podspec_other s)"

definition metaJSON :: "V1ObjectMeta \<Rightarrow> json" where
  "metaJSON m =
     propertiesInOrder (meta_keys m)
       ([(''name'', JString (meta_name m))]
        @ property ''namespace'' (map_option JString (meta_namespace m))
        @ property ''annotations'' (map_option stringMapJSON (annotations m))
        @ property ''labels'' (map_option stringMapJSON (labels m))
        @ property ''uid'' (map_option JString (uid m))
        @ property ''resourceVersion'' (map_option JString (resourceVersion m))
        @ property ''creationTimestamp'' (map_option JString (creationTimestamp m))
        @ property ''generation'' (map_option JNumber (generation m)))"

definition templateJSON :: "V1PodTemplateSpec \<Rightarrow> json" where
  "templateJSON t =
     propertiesInOrder (template_keys t)
       (property ''metadata'' (map_option metaJSON (template_metadata t))
        @ [(''spec'', podSpecJSON (template_spec t))])"

definition specJSON :: "V1beta2DeploymentSpec \<Rightarrow> json" where
  "specJSON s =
     propertiesInOrder (spec_keys s)
       (property ''replicas'' (map_option JNumber (replicas s))
        @ [(''template'', templateJSON (template s))]
        @ deploymentspec_other s)"

definition statusJSON :: "V1beta2DeploymentStatus \<Rightarrow> json" where
  "statusJSON st =
     JObject (property ''availableReplicas'' (map_option JNumber (availableReplicas st))
              @ property ''observedGeneration'' (map_option JNumber (observedGeneration st)))"

text \<open>
  Only minified deployments are serialised; their own properties are \<^verbatim>\<open>metadata\<close> and
  \<^verbatim>\<open>spec\<close>, in the order of the object literal of \<^verbatim>\<open>minifyDeployment\<close>.
\<close>

definition deploymentJSON :: "V1beta2Deployment \<Rightarrow> json" where
  "deploymentJSON d =
     JObject (property ''apiVersion'' (map_option JString (apiVersion d))
              @ property ''kind'' (map_option JString (kind d))
              @ [(''metadata'', metaJSON (metadata d)), (''spec'', specJSON (spec d))]
              @ property ''status'' (map_option statusJSON (status d)))"

text \<open>
  \<^verbatim>\<open>needsUpdate\<close> compares the \<^verbatim>\<open>JSON.stringify\<close> texts of the two minified
  objects.
\<close>

definition needsUpdate :: "V1beta2Deployment option \<Rightarrow> V1beta2Deployment \<Rightarrow> bool" where
  "needsUpdate current target =
     (case current of
        None \<Rightarrow> True
      | Some c \<Rightarrow>
          JSON_stringify (deploymentJSON (minifyDeployment target))
            \<noteq> JSON_stringify (deploymentJSON (minifyDeployment c)))"

text \<open>\<^verbatim>\<open>group.namespace || "default"\<close>: an absent and an empty namespace are both falsy.\<close>

definition getNamespace :: "ServerGroup \<Rightarrow> string" where
  "getNamespace grp =
     (case namespace grp of
        None \<Rightarrow> ''default''
      | Some n \<Rightarrow> (if n = [] then ''default'' else n))"

definition isNamespaceAllowed :: "Env \<Rightarrow> string \<Rightarrow> bool" where
  "isNamespaceAllowed env ns =
     (case allowedNamespaces env of
        None \<Rightarrow> True
      | Some allowed \<Rightarrow> find (\<lambda>n. n = ns) allowed \<noteq> None)"

definition isReady :: "V1PodStatus \<Rightarrow> bool" where
  "isReady st =
     (case conditions st of
        None \<Rightarrow> False
      | Some cs \<Rightarrow>
          (case find (\<lambda>c. condition_type c = ''Ready'') cs of
             None \<Rightarrow> False
           | Some readyCondition \<Rightarrow> condition_status readyCondition = ''True''))"

subsection \<open>Building an API client\<close>

text \<open>
  \<^verbatim>\<open>build\<close>: \<^verbatim>\<open>getConfig\<close> throws when the cluster has no configuration, and
  \<^verbatim>\<open>getServer\<close> reads \<^verbatim>\<open>.server\<close> of the current cluster, a \<^verbatim>\<open>TypeError\<close> when
  there is none. The client is identified by the server it talks to.
\<close>

definition getConfig :: "Env \<Rightarrow> string \<Rightarrow> error + KubeConfig" where
  "getConfig env c =
     (case map_of (configs env) c of
        None \<Rightarrow> Inl (Error (''Config for cluster '' @ c @ '' could not be found''))
      | Some config \<Rightarrow> Inr config)"

definition getServer :: "KubeConfig \<Rightarrow> error + string" where
  "getServer config =
     (case currentCluster config of
        None \<Rightarrow> Inl (TypeError ''Cannot read properties of null (reading server)'')
      | Some server \<Rightarrow> Inr server)"

definition build :: "Env \<Rightarrow> string \<Rightarrow> error + string" where
  "build env c =
     (case getConfig env c of
        Inl e \<Rightarrow> Inl e
      | Inr config \<Rightarrow> getServer config)"

definition clusters :: "Env \<Rightarrow> string list" where
  "clusters env = map fst (configs env)"

text \<open>Sending one replace request: the answer comes back and the exchange is on record.\<close>

definition replaceNamespacedDeployment ::
  "Env \<Rightarrow> string \<Rightarrow> string \<Rightarrow> string \<Rightarrow> V1beta2Deployment \<Rightarrow> World
     \<Rightarrow> (error + V1beta2Deployment) \<times> World" where
  "replaceNamespacedDeployment env server name ns body w =
     (let request = \<lparr>request_server = server, request_name = name,
                      request_namespace = ns, request_body = body\<rparr>;
          response = replaceResponse env (exchanges w) request
      in (response, w\<lparr>exchanges := exchanges w @ [(request, response)]\<rparr>))"

text \<open>The path \<^verbatim>\<open>spec.template.spec.containers\<close> of a deployment.\<close>

definition deploymentContainers :: "V1beta2Deployment \<Rightarrow> V1Container list" where
  "deploymentContainers d = containers (template_spec (template (spec d)))"

text \<open>
  The assignment \<^verbatim>\<open>target.spec.template.spec.containers[0].image = url\<close>: with no
  first container it writes a property of \<^verbatim>\<open>undefined\<close> and throws.
\<close>

definition setFirstContainerImage :: "V1beta2Deployment \<Rightarrow> string \<Rightarrow> error + V1beta2Deployment" where
  "setFirstContainerImage target u =
     (case deploymentContainers target of
        [] \<Rightarrow> Inl (TypeError ''Cannot set properties of undefined (setting image)'')
      | c # cs \<Rightarrow>
          Inr (target\<lparr>spec := (spec target)\<lparr>template := (template (spec target))
                 \<lparr>template_spec := (template_spec (template (spec target)))
                    \<lparr>containers := c\<lparr>container_image := u\<rparr> # cs\<rparr>\<rparr>\<rparr>\<rparr>))"

subsection \<open>Applying a snapshot\<close>

text \<open>
  The local state of the loop of \<^verbatim>\<open>applySnapshot\<close>: the two lists it pushes to, and
  the world its requests go to.
\<close>

record Batch =
  applied :: "string list"
  errored :: "string list"
  world :: World

text \<open>
  The target of one snapshot entry: with \<^verbatim>\<open>ignoreImage\<close> set and the deployment found in
  the cluster, the image of the running deployment (when \<^verbatim>\<open>createImage\<close> gives one) is
  written into the first container of the recorded data. The source writes it into the
  snapshot object itself; entries do not share their data objects, so the write is seen
  by this entry only.
\<close>

definition snapshotTarget ::
  "bool \<Rightarrow> V1beta2Deployment option \<Rightarrow> SnapshotDeployment \<Rightarrow> error + V1beta2Deployment" where
  "snapshotTarget ignoreImage cur deployment =
     (let target = snapshot_data deployment in
      case cur of
        None \<Rightarrow> Inr target
      | Some c \<Rightarrow>
          (if ignoreImage then
             (case createImage (Some (deploymentContainers c)) of
                None \<Rightarrow> Inr target
              | Some img \<Rightarrow> setFirstContainerImage target (url img))
           else Inr target))"

text \<open>
  One iteration of the loop. Only the replace request is inside the \<^verbatim>\<open>try\<close>; a
  \<^verbatim>\<open>TypeError\<close> of the image assignment leaves the loop and the method.
\<close>

definition applyDeployment ::
  "Env \<Rightarrow> string \<Rightarrow> string \<Rightarrow> V1beta2Deployment list \<Rightarrow> bool \<Rightarrow> SnapshotDeployment \<Rightarrow> Batch
     \<Rightarrow> error + Batch" where
  "applyDeployment env server ns items ignoreImage deployment b =
     (let cur = find (\<lambda>d. meta_name (metadata d) = snapshot_name deployment) items in
      case snapshotTarget ignoreImage cur deployment of
        Inl e \<Rightarrow> Inl e
      | Inr target \<Rightarrow>
          (if needsUpdate cur target then
             (case replaceNamespacedDeployment env server (snapshot_name deployment) ns target (world b) of
                (Inr _, w) \<Rightarrow>
                  Inr (b\<lparr>applied := applied b @ [''Deployment '' @ snapshot_name deployment], world := w\<rparr>)
              | (Inl _, w) \<Rightarrow>
                  Inr (b\<lparr>errored := errored b @ [''Deployment '' @ snapshot_name deployment], world := w\<rparr>))
           else Inr b))"

text \<open>
  The loop over \<^verbatim>\<open>snapshot.deployments\<close>: it ends with the batch, and with the error
  when an iteration threw; the requests sent before that stay sent.
\<close>

fun applyDeployments ::
  "Env \<Rightarrow> string \<Rightarrow> string \<Rightarrow> V1beta2Deployment list \<Rightarrow> bool \<Rightarrow> SnapshotDeployment list \<Rightarrow> Batch
     \<Rightarrow> error option \<times> Batch" where
  "applyDeployments env server ns items ignoreImage [] b = (None, b)"
| "applyDeployments env server ns items ignoreImage (deployment # rest) b =
     (case applyDeployment env server ns items ignoreImage deployment b of
        Inl e \<Rightarrow> (Some e, b)
      | Inr b' \<Rightarrow> applyDeployments env server ns items ignoreImage rest b')"

text \<open>
  The text \<^verbatim>\<open>${group.namespace}\<close> of a template literal: an absent namespace prints
  as \<^verbatim>\<open>undefined\<close>. The infinity sign of the description is its three UTF-8 bytes.
\<close>

definition infinity_sign :: string where
  "infinity_sign = [CHR 0xE2, CHR 0x88, CHR 0x9E]"

definition appliedSnapshotsEvent :: "Env \<Rightarrow> ServerGroup \<Rightarrow> Batch \<Rightarrow> Event" where
  "appliedSnapshotsEvent env grp b =
     \<lparr>message = ''Applied Snapshots'',
      timestamp = Date_now env,
      topics = [''slack''],
      description =
        ''Applied Snapshots in '' @ cluster grp @ '' '' @ infinity_sign @ '' ''
          @ (case namespace grp of None \<Rightarrow> ''undefined'' | Some n \<Rightarrow> n),
      event_fields =
        map (\<lambda>v. \<lparr>field_value = v, field_title = ''Failure''\<rparr>) (errored b)
          @ map (\<lambda>v. \<lparr>field_value = v, field_title = ''Success''\<rparr>) (applied b)\<rparr>"

text \<open>
  \<^verbatim>\<open>applySnapshot\<close>. The call of the event module is not awaited, so it cannot make
  the method fail; the event is handed over.
\<close>

definition applySnapshot ::
  "Env \<Rightarrow> ServerGroup \<Rightarrow> ClusterSnapshot \<Rightarrow> bool \<Rightarrow> World \<Rightarrow> (error + unit) \<times> World" where
  "applySnapshot env grp snapshot ignoreImage w =
     (case build env (cluster grp) of
        Inl e \<Rightarrow> (Inl e, w)
      | Inr server \<Rightarrow>
          (let ns = getNamespace grp in
           case listNamespacedDeployment env server ns of
             Inl e \<Rightarrow> (Inl e, w)
           | Inr items \<Rightarrow>
               (case applyDeployments env server ns items ignoreImage (deployments snapshot)
                       \<lparr>applied = [], errored = [], world = w\<rparr> of
                  (Some e, b) \<Rightarrow> (Inl e, world b)
                | (None, b) \<Rightarrow>
                    (if length (applied b) + length (errored b) > 0
                     then (Inr (), (world b)\<lparr>events := events (world b) @ [appliedSnapshotsEvent env grp b]\<rparr>)
                     else (Inr (), world b)))))"

subsection \<open>Reading the cluster\<close>

text \<open>
  \<^verbatim>\<open>pods\<close>, \<^verbatim>\<open>deployments\<close> and \<^verbatim>\<open>scalers\<close>: build the client, list the namespace
  \<^verbatim>\<open>getNamespace\<close> gives, and map the items. A rejected listing rejects the method.
\<close>

definition toPod :: "V1Pod \<Rightarrow> Pod" where
  "toPod item =
     \<lparr>pod_name = meta_name (pod_metadata item),
      pod_image = createImage (Some (containers (pod_spec item))),
      restarts =
        (case containerStatuses (pod_status item) of
           None \<Rightarrow> None
         | Some [] \<Rightarrow> None
         | Some (s # _) \<Rightarrow> Some (restartCount s)),
      ready = isReady (pod_status item)\<rparr>"

definition pods :: "Env \<Rightarrow> ServerGroup \<Rightarrow> error + Pod list" where
  "pods env grp =
     (case build env (cluster grp) of
        Inl e \<Rightarrow> Inl e
      | Inr server \<Rightarrow>
          (case listNamespacedPod env server (getNamespace grp) of
             Inl e \<Rightarrow> Inl e
           | Inr items \<Rightarrow> Inr (map toPod items)))"

definition toDeployment :: "V1beta2Deployment \<Rightarrow> Deployment" where
  "toDeployment item =
     \<lparr>deployment_name = meta_name (metadata item),
      deployment_image = createImage (Some (deploymentContainers item))\<rparr>"

definition deployments_of :: "Env \<Rightarrow> ServerGroup \<Rightarrow> error + Deployment list" where
  "deployments_of env grp =
     (case build env (cluster grp) of
        Inl e \<Rightarrow> Inl e
      | Inr server \<Rightarrow>
          (case listNamespacedDeployment env server (getNamespace grp) of
             Inl e \<Rightarrow> Inl e
           | Inr items \<Rightarrow> Inr (map toDeployment items)))"

definition toScaler :: "V1HorizontalPodAutoscaler \<Rightarrow> Scaler" where
  "toScaler item =
     \<lparr>scaler_name = meta_name (hpa_metadata item),
      scaler_replicas =
        \<lparr>replicas_current = hpa_currentReplicas item,
         replicas_minimum = hpa_minReplicas item,
         replicas_maximum = hpa_maxReplicas item\<rparr>\<rparr>"

definition scalers :: "Env \<Rightarrow> ServerGroup \<Rightarrow> error + Scaler list" where
  "scalers env grp =
     (case build env (cluster grp) of
        Inl e \<Rightarrow> Inl e
      | Inr server \<Rightarrow>
          (case listNamespacedHorizontalPodAutoscaler env server (getNamespace grp) of
             Inl e \<Rightarrow> Inl e
           | Inr items \<Rightarrow> Inr (map toScaler items)))"

text \<open>
  \<^verbatim>\<open>takeSnapshot\<close>: every deployment of the namespace, by name, with its minified data.
\<close>

definition takeSnapshot :: "Env \<Rightarrow> ServerGroup \<Rightarrow> error + ClusterSnapshot" where
  "takeSnapshot env grp =
     (case build env (cluster grp) of
        Inl e \<Rightarrow> Inl e
      | Inr server \<Rightarrow>
          (case listNamespacedDeployment env server (getNamespace grp) of
             Inl e \<Rightarrow> Inl e
           | Inr items \<Rightarrow>
               Inr \<lparr>deployments =
                      map (\<lambda>d. \<lparr>snapshot_name = meta_name (metadata d),
                                  snapshot_data = minifyDeployment d\<rparr>) items\<rparr>))"

text \<open>
  \<^verbatim>\<open>updateDeployment\<close>: read the deployment, minify it, write the target image into
  its first container, send the replace request and report what the answer holds. Nothing
  is caught here.
\<close>

definition updateDeployment ::
  "Env \<Rightarrow> ServerGroup \<Rightarrow> Deployment \<Rightarrow> Image \<Rightarrow> World \<Rightarrow> (error + Deployment) \<times> World" where
  "updateDeployment env grp deployment targetImage w =
     (case build env (cluster grp) of
        Inl e \<Rightarrow> (Inl e, w)
      | Inr server \<Rightarrow>
          (let ns = getNamespace grp in
           case readNamespacedDeployment env server (deployment_name deployment) ns of
             Inl e \<Rightarrow> (Inl e, w)
           | Inr body \<Rightarrow>
               (case setFirstContainerImage (minifyDeployment body) (url targetImage) of
                  Inl e \<Rightarrow> (Inl e, w)
                | Inr target \<Rightarrow>
                    (case replaceNamespacedDeployment env server (deployment_name deployment) ns target w of
                       (Inl e, w') \<Rightarrow> (Inl e, w')
                     | (Inr result, w') \<Rightarrow> (Inr (toDeployment result), w')))))"

subsection \<open>The namespaces of a cluster, cached\<close>

text \<open>
  Modelled from the spec: the class \<^verbatim>\<open>Cache\<close> that \<^verbatim>\<open>namespaces\<close> calls is not
  among the sources. The spec (4.2): \<^verbatim>\<open>calculate(key, supplier)\<close> returns the cached
  value for the key if it was computed less than \<^verbatim>\<open>ttl\<close> seconds ago; otherwise it
  invokes the supplier, stores the result with the current timestamp and returns it; a
  failure of the supplier is not cached, the cache is left empty for that key. Time is in
  seconds. The supplier's outcome stands for the supplier: it is looked at only when the
  supplier would be invoked.
\<close>

record ('k, 'v) Cache =
  ttl :: nat
  entries :: "'k \<Rightarrow> ('v \<times> nat) option"

text \<open>
  Modelled from the spec: a value is returned from the cache if it was computed less than
  \<^verbatim>\<open>ttl\<close> seconds ago.
\<close>

definition isFresh :: "('k, 'v) Cache \<Rightarrow> nat \<Rightarrow> 'k \<Rightarrow> bool" where
  "isFresh cache now key =
     (case entries cache key of
        None \<Rightarrow> False
      | Some (v, computed) \<Rightarrow> now < computed + ttl cache)"

text \<open>
  Modelled from the spec: \<^verbatim>\<open>calculate\<close> for a call that no other call overlaps. The
  fresh value is returned and nothing changes; otherwise the supplier's result is stored
  with the current time and returned, and its failure is returned and leaves the key
  without an entry.
\<close>

definition calculate ::
  "('k, 'v) Cache \<Rightarrow> nat \<Rightarrow> 'k \<Rightarrow> (error + 'v) \<Rightarrow> (error + 'v) \<times> ('k, 'v) Cache" where
  "calculate cache now key supplied =
     (case (if isFresh cache now key then entries cache key else None) of
        Some (v, computed) \<Rightarrow> (Inr v, cache)
      | None \<Rightarrow>
          (case supplied of
             Inl e \<Rightarrow> (Inl e, cache\<lparr>entries := (entries cache)(key := None)\<rparr>)
           | Inr v \<Rightarrow> (Inr v, cache\<lparr>entries := (entries cache)(key \<mapsto> (v, now))\<rparr>)))"

text \<open>
  Modelled from the spec: a new cache has its \<^verbatim>\<open>ttl\<close> and no entry. A repository
  starts with \<^verbatim>\<open>new Cache(60)\<close>.
\<close>

definition newCache :: "nat \<Rightarrow> ('k, 'v) Cache" where
  "newCache seconds = \<lparr>ttl = seconds, entries = (\<lambda>k. None)\<rparr>"

text \<open>
  The supplier of \<^verbatim>\<open>namespaces\<close>: list the namespaces of the cluster, take their
  names and keep the allowed ones.
\<close>

definition listAllowedNamespaces :: "Env \<Rightarrow> nat \<Rightarrow> string \<Rightarrow> error + string list" where
  "listAllowedNamespaces env now c =
     (case build env c of
        Inl e \<Rightarrow> Inl e
      | Inr server \<Rightarrow>
          (case listNamespace env server now of
             Inl e \<Rightarrow> Inl e
           | Inr items \<Rightarrow>
               Inr (filter (\<lambda>ns. isNamespaceAllowed env ns)
                      (map (\<lambda>item. meta_name (namespace_metadata item)) items))))"

definition namespaces ::
  "Env \<Rightarrow> (string, string list) Cache \<Rightarrow> nat \<Rightarrow> string
     \<Rightarrow> (error + string list) \<times> (string, string list) Cache" where
  "namespaces env namespacesCache now c =
     calculate namespacesCache now c (listAllowedNamespaces env now c)"

subsection \<open>Calls of the cache that overlap\<close>

text \<open>
  Modelled from the spec: the class \<^verbatim>\<open>Cache\<close> is not among the sources, and neither is
  what it does while a supplier is still running. The spec (4.2 and 5): a call returns the
  cached value if it was computed less than \<^verbatim>\<open>ttl\<close> seconds ago; otherwise the
  supplier is invoked, but calls for the same key during an in-flight computation must
  not invoke it again: late arrivals await the computation in flight, and all of them
  observe its result or its failure. A failure is not cached.

  JavaScript runs one callback at a time, so overlapping calls are a sequence of events:
  a caller arrives with a key, or the supplier running for a key settles with its
  outcome. The state records the cache, the callers waiting per key, the keys the supplier
  was invoked for, in order, and what each caller has observed.
\<close>

record ('k, 'v) Flights =
  flights_cache :: "('k, 'v) Cache"
  inflight :: "'k \<Rightarrow> nat list option"
  invoked :: "'k list"
  observed :: "(nat \<times> (error + 'v)) list"

text \<open>
  Modelled from the spec: a caller arrives. A fresh value is observed at once; otherwise
  the caller joins the computation in flight for the key, or, when there is none, the
  supplier is invoked and the caller waits for it.
\<close>

definition arrive :: "('k, 'v) Flights \<Rightarrow> nat \<Rightarrow> nat \<Rightarrow> 'k \<Rightarrow> ('k, 'v) Flights" where
  "arrive f now caller key =
     (case (if isFresh (flights_cache f) now key then entries (flights_cache f) key else None) of
        Some (v, computed) \<Rightarrow> f\<lparr>observed := observed f @ [(caller, Inr v)]\<rparr>
      | None \<Rightarrow>
          (case inflight f key of
             Some waiting \<Rightarrow> f\<lparr>inflight := (inflight f)(key \<mapsto> waiting @ [caller])\<rparr>
           | None \<Rightarrow> f\<lparr>invoked := invoked f @ [key], inflight := (inflight f)(key \<mapsto> [caller])\<rparr>))"

text \<open>
  Modelled from the spec: the supplier running for a key settles. Every waiting caller
  observes the outcome; a result is stored with the current time, a failure leaves the key
  without an entry.
\<close>

definition settle :: "('k, 'v) Flights \<Rightarrow> nat \<Rightarrow> 'k \<Rightarrow> error + 'v \<Rightarrow> ('k, 'v) Flights" where
  "settle f now key outcome =
     (case inflight f key of
        None \<Rightarrow> f
      | Some waiting \<Rightarrow>
          f\<lparr>flights_cache :=
              (flights_cache f)\<lparr>entries :=
                 (case outcome of
                    Inl e \<Rightarrow> (entries (flights_cache f))(key := None)
                  | Inr v \<Rightarrow> (entries (flights_cache f))(key \<mapsto> (v, now)))\<rparr>,
            inflight := (inflight f)(key := None),
            observed := observed f @ map (\<lambda>caller. (caller, outcome)) waiting\<rparr>)"

text \<open>
  Modelled from the spec: callers arriving one after the other for one key, each at its
  own time, before the supplier settles.
\<close>

fun arrivals :: "('k, 'v) Flights \<Rightarrow> (nat \<times> nat) list \<Rightarrow> 'k \<Rightarrow> ('k, 'v) Flights" where
  "arrivals f [] key = f"
| "arrivals f ((now, caller) # later) key = arrivals (arrive f now caller key) later key"

section \<open>The dashboard\<close>

text \<open>
  The \<^verbatim>\<open>index\<close> handler of the views module. What it gets through the dispatcher
  (\<^verbatim>\<open>call(clusters)\<close>, \<^verbatim>\<open>call(namespaces)\<close>, \<^verbatim>\<open>call(pipelines)\<close>,
  \<^verbatim>\<open>call(schedules)\<close>, \<^verbatim>\<open>call(list)\<close>) are parameters: each answers or rejects.
  \<^verbatim>\<open>moment(t).toISOString()\<close> is a parameter too.

  A promise can reject with any value. The handler reads one thing of it, its
  \<^verbatim>\<open>message\<close> property: the value is \<^verbatim>\<open>undefined\<close>, or \<^verbatim>\<open>null\<close>, or something else
  whose \<^verbatim>\<open>message\<close> is a string or is missing.
\<close>

datatype rejection = RejectedUndefined | RejectedNull | RejectedWith "string option"

text \<open>
  The text \<^verbatim>\<open>prefix + e.message\<close> of a \<^verbatim>\<open>catch\<close> block. Reading a property of
  \<^verbatim>\<open>undefined\<close> or \<^verbatim>\<open>null\<close> throws; a missing message prints as
  \<^verbatim>\<open>undefined\<close>.
\<close>

definition caught :: "string \<Rightarrow> rejection \<Rightarrow> error + string" where
  "caught prefix e =
     (case e of
        RejectedUndefined \<Rightarrow>
          Inl (TypeError ''Cannot read properties of undefined (reading message)'')
      | RejectedNull \<Rightarrow>
          Inl (TypeError ''Cannot read properties of null (reading message)'')
      | RejectedWith None \<Rightarrow> Inr (prefix @ ''undefined'')
      | RejectedWith (Some m) \<Rightarrow> Inr (prefix @ m))"

record PipelineDescription =
  pipeline_name :: string
  pipeline_cluster :: string
  pipeline_cron :: "string option"

record Cron =
  lastRun :: "nat option"
  nextRuns :: "nat list"

record Dispatcher =
  call_clusters :: "rejection + string list"
  call_namespaces :: "string \<Rightarrow> rejection + string list"
  call_pipelines :: "rejection + PipelineDescription list"
  call_schedules :: "PipelineDescription \<Rightarrow> rejection + Cron option"
  call_list :: "rejection + string list"
  toISOString :: "nat \<Rightarrow> string"

record ClusterView =
  view_name :: string
  view_namespaces :: "string list"

record JobView =
  view_pipeline :: PipelineDescription
  view_lastRun :: "string option"
  view_nextRun :: "string option"

record 'c Page =
  title :: string
  page_clusters :: "ClusterView list option"
  page_jobs :: "JobView list option"
  page_images :: "string list option"
  page_config :: "'c option"
  page_version :: "string option"
  page_errors :: "string list"

text \<open>
  The loop of the first \<^verbatim>\<open>try\<close>: it pushes one entry per cluster and stops at the
  first rejected \<^verbatim>\<open>namespaces\<close> call; what was pushed before stays in the list.
\<close>

fun clustersWithNamespaces ::
  "Dispatcher \<Rightarrow> string list \<Rightarrow> ClusterView list \<Rightarrow> rejection option \<times> ClusterView list" where
  "clustersWithNamespaces d [] acc = (None, acc)"
| "clustersWithNamespaces d (c # cs) acc =
     (case call_namespaces d c of
        Inl e \<Rightarrow> (Some e, acc)
      | Inr knownNamespaces \<Rightarrow>
          clustersWithNamespaces d cs
            (acc @ [\<lparr>view_name = c, view_namespaces = knownNamespaces\<rparr>]))"

definition jobView :: "Dispatcher \<Rightarrow> PipelineDescription \<Rightarrow> Cron option \<Rightarrow> JobView" where
  "jobView d pipeline knownSchedules =
     \<lparr>view_pipeline = pipeline,
      view_lastRun =
        (case knownSchedules of
           None \<Rightarrow> None
         | Some cron \<Rightarrow> (case lastRun cron of None \<Rightarrow> None | Some t \<Rightarrow> Some (toISOString d t))),
      view_nextRun =
        (case knownSchedules of
           None \<Rightarrow> None
         | Some cron \<Rightarrow> (case nextRuns cron of [] \<Rightarrow> None | t # _ \<Rightarrow> Some (toISOString d t)))\<rparr>"

fun jobsWithSchedules ::
  "Dispatcher \<Rightarrow> PipelineDescription list \<Rightarrow> JobView list \<Rightarrow> rejection option \<times> JobView list" where
  "jobsWithSchedules d [] acc = (None, acc)"
| "jobsWithSchedules d (pipeline # ps) acc =
     (case call_schedules d pipeline of
        Inl e \<Rightarrow> (Some e, acc)
      | Inr knownSchedules \<Rightarrow>
          jobsWithSchedules d ps (acc @ [jobView d pipeline knownSchedules]))"

text \<open>
  The three \<^verbatim>\<open>try\<close> blocks, each with its \<^verbatim>\<open>catch\<close>: the value the variable holds
  after the block, and the message pushed to \<^verbatim>\<open>errors\<close> if something was thrown. The
  \<^verbatim>\<open>catch\<close> block itself throws when it cannot read the message.
\<close>

definition loadClusters :: "Dispatcher \<Rightarrow> error + ClusterView list option \<times> string list" where
  "loadClusters d =
     (case call_clusters d of
        Inl e \<Rightarrow>
          (case caught ''Clusters could not be loaded: '' e of
             Inl thrown \<Rightarrow> Inl thrown
           | Inr m \<Rightarrow> Inr (None, [m]))
      | Inr knownClusters \<Rightarrow>
          (case clustersWithNamespaces d knownClusters [] of
             (None, views) \<Rightarrow> Inr (Some views, [])
           | (Some e, views) \<Rightarrow>
               (case caught ''Clusters could not be loaded: '' e of
                  Inl thrown \<Rightarrow> Inl thrown
                | Inr m \<Rightarrow> Inr (Some views, [m]))))"

definition loadJobs :: "Dispatcher \<Rightarrow> error + JobView list option \<times> string list" where
  "loadJobs d =
     (case call_pipelines d of
        Inl e \<Rightarrow>
          (case caught ''Jobs could not be loaded: '' e of
             Inl thrown \<Rightarrow> Inl thrown
           | Inr m \<Rightarrow> Inr (None, [m]))
      | Inr knownPipelines \<Rightarrow>
          (case jobsWithSchedules d knownPipelines [] of
             (None, views) \<Rightarrow> Inr (Some views, [])
           | (Some e, views) \<Rightarrow>
               (case caught ''Jobs could not be loaded: '' e of
                  Inl thrown \<Rightarrow> Inl thrown
                | Inr m \<Rightarrow> Inr (Some views, [m]))))"

definition loadImages :: "Dispatcher \<Rightarrow> error + string list option \<times> string list" where
  "loadImages d =
     (case call_list d of
        Inl e \<Rightarrow>
          (case caught ''Images could not be loaded: '' e of
             Inl thrown \<Rightarrow> Inl thrown
           | Inr m \<Rightarrow> Inr (None, [m]))
      | Inr knownImages \<Rightarrow> Inr (Some knownImages, []))"

text \<open>
  \<^verbatim>\<open>index\<close>: the three blocks one after the other. What a \<^verbatim>\<open>catch\<close> block throws
  is caught by nothing: the handler rejects with it and the later blocks do not run.
\<close>

definition index :: "Dispatcher \<Rightarrow> 'c option \<Rightarrow> string option \<Rightarrow> error + 'c Page" where
  "index d config version =
     (case loadClusters d of
        Inl thrown \<Rightarrow> Inl thrown
      | Inr (clustersView, clusterErrors) \<Rightarrow>
          (case loadJobs d of
             Inl thrown \<Rightarrow> Inl thrown
           | Inr (jobsView, jobErrors) \<Rightarrow>
               (case loadImages d of
                  Inl thrown \<Rightarrow> Inl thrown
                | Inr (knownImages, imageErrors) \<Rightarrow>
                    Inr \<lparr>title = ''Spacegun '' @ infinity_sign @ '' Dashboard'',
                         page_clusters = clustersView,
                         page_jobs = jobsView,
                         page_images = knownImages,
                         page_config = config,
                         page_version = version,
                         page_errors = clusterErrors @ jobErrors @ imageErrors\<rparr>)))"

section \<open>Notions used in the statements\<close>

text \<open>
  For one snapshot entry and the listing \<^verbatim>\<open>result.body.items\<close>: the deployment the
  loop finds for it, whether the image assignment goes through, the target after the
  assignment, the request the loop would send, and the comparison of \<^verbatim>\<open>needsUpdate\<close>.
  For a list of exchanges: the labels the loop pushes for the answered and for the
  rejected requests.
\<close>

definition currentOf :: "V1beta2Deployment list \<Rightarrow> SnapshotDeployment \<Rightarrow> V1beta2Deployment option" where
  "currentOf items d = find (\<lambda>x. meta_name (metadata x) = snapshot_name d) items"

definition assignable :: "bool \<Rightarrow> V1beta2Deployment list \<Rightarrow> SnapshotDeployment \<Rightarrow> bool" where
  "assignable ignoreImage items d =
     (case snapshotTarget ignoreImage (currentOf items d) d of Inl _ \<Rightarrow> False | Inr _ \<Rightarrow> True)"

definition targetOf :: "bool \<Rightarrow> V1beta2Deployment list \<Rightarrow> SnapshotDeployment \<Rightarrow> V1beta2Deployment" where
  "targetOf ignoreImage items d =
     (case snapshotTarget ignoreImage (currentOf items d) d of Inl _ \<Rightarrow> snapshot_data d | Inr t \<Rightarrow> t)"

definition requestOf ::
  "string \<Rightarrow> string \<Rightarrow> bool \<Rightarrow> V1beta2Deployment list \<Rightarrow> SnapshotDeployment \<Rightarrow> ReplaceRequest" where
  "requestOf server ns ignoreImage items d =
     \<lparr>request_server = server, request_name = snapshot_name d,
      request_namespace = ns, request_body = targetOf ignoreImage items d\<rparr>"

definition differs :: "bool \<Rightarrow> V1beta2Deployment list \<Rightarrow> SnapshotDeployment \<Rightarrow> bool" where
  "differs ignoreImage items d =
     (case currentOf items d of
        None \<Rightarrow> True
      | Some c \<Rightarrow>
          JSON_stringify (deploymentJSON (minifyDeployment (targetOf ignoreImage items d)))
            \<noteq> JSON_stringify (deploymentJSON (minifyDeployment c)))"

definition accepted :: "(ReplaceRequest \<times> (error + V1beta2Deployment)) list \<Rightarrow> string list" where
  "accepted xs = map (\<lambda>x. ''Deployment '' @ request_name (fst x)) (filter (\<lambda>x. \<not> isl (snd x)) xs)"

definition rejected :: "(ReplaceRequest \<times> (error + V1beta2Deployment)) list \<Rightarrow> string list" where
  "rejected xs = map (\<lambda>x. ''Deployment '' @ request_name (fst x)) (filter (\<lambda>x. isl (snd x)) xs)"








text \<open>
  The name of an image as the spec words it: the url without its registry and path
  prefix (all up to the last slash) and without its tag or digest suffix (from the first
  colon or at-sign of what is left).
\<close>

definition spec_imageName :: "string \<Rightarrow> string" where
  "spec_imageName u =
     takeWhile (\<lambda>x. x \<noteq> CHR ''@'' \<and> x \<noteq> CHR '':'') (last (split (\<lambda>x. x = CHR ''/'') u))"

text \<open>
  For the dashboard: a sub-query has succeeded when every dispatched call it makes is
  answered.
\<close>

definition clustersLoaded :: "Dispatcher \<Rightarrow> bool" where
  "clustersLoaded d =
     (case call_clusters d of
        Inl e \<Rightarrow> False
      | Inr knownClusters \<Rightarrow> list_all (\<lambda>c. \<not> isl (call_namespaces d c)) knownClusters)"

definition jobsLoaded :: "Dispatcher \<Rightarrow> bool" where
  "jobsLoaded d =
     (case call_pipelines d of
        Inl e \<Rightarrow> False
      | Inr knownPipelines \<Rightarrow> list_all (\<lambda>p. \<not> isl (call_schedules d p)) knownPipelines)"

definition imagesLoaded :: "Dispatcher \<Rightarrow> bool" where
  "imagesLoaded d = (\<not> isl (call_list d))"

text \<open>
  A rejection whose message can be read, and the text the message gives. The dispatcher
  never rejects with \<^verbatim>\<open>undefined\<close> or \<^verbatim>\<open>null\<close> when every rejection it can answer
  with is readable.
\<close>

definition readable :: "rejection \<Rightarrow> bool" where
  "readable e = (e \<noteq> RejectedUndefined \<and> e \<noteq> RejectedNull)"

definition messageText :: "rejection \<Rightarrow> string" where
  "messageText e = (case e of RejectedWith (Some m) \<Rightarrow> m | _ \<Rightarrow> ''undefined'')"

definition readableRejections :: "Dispatcher \<Rightarrow> bool" where
  "readableRejections d =
     ((\<forall>e. call_clusters d = Inl e \<longrightarrow> readable e)
      \<and> (\<forall>c e. call_namespaces d c = Inl e \<longrightarrow> readable e)
      \<and> (\<forall>e. call_pipelines d = Inl e \<longrightarrow> readable e)
      \<and> (\<forall>p e. call_schedules d p = Inl e \<longrightarrow> readable e)
      \<and> (\<forall>e. call_list d = Inl e \<longrightarrow> readable e))"

text \<open>
  For the namespaces cache: every stored entry is what the supplier of \<^verbatim>\<open>namespaces\<close>
  returned at the time the entry was stored. The cache a repository starts with has no
  entry, and \<^verbatim>\<open>namespaces\<close> is the only writer.
\<close>

definition cacheHolds :: "Env \<Rightarrow> (string, string list) Cache \<Rightarrow> bool" where
  "cacheHolds env cache =
     (\<forall>c v t. entries cache c = Some (v, t) \<longrightarrow> listAllowedNamespaces env t c = Inr v)"

section \<open>Example inputs\<close>

text \<open>
  A cluster \<^verbatim>\<open>develop\<close> whose default namespace runs the given deployments, and an
  API that rejects every replace request for the deployment \<^verbatim>\<open>a\<close> and every one whose
  body has no container, and answers every other with the body it was sent. A deployment
  of the examples has a name, an image and a number of replicas.
\<close>

definition exampleDeployment :: "string \<Rightarrow> string \<Rightarrow> nat \<Rightarrow> V1beta2Deployment" where
  "exampleDeployment n u r =
     \<lparr>apiVersion = Some ''apps/v1beta2'', kind = Some ''Deployment'',
      metadata = \<lparr>meta_name = n, meta_namespace = Some ''default'', annotations = None,
                  labels = None, uid = Some ''uid'', resourceVersion = Some ''7'',
                  creationTimestamp = None, generation = Some 1, meta_keys = []\<rparr>,
      spec = \<lparr>replicas = Some r,
              template =
                \<lparr>template_metadata = None,
                 template_spec =
                   \<lparr>containers = [\<lparr>container_name = n, container_image = u,
                                   container_other = [], container_keys = []\<rparr>],
                    podspec_other = [], podspec_keys = []\<rparr>,
                 template_keys = []\<rparr>,
              deploymentspec_other = [(''paused'', JBoolean False)],
              spec_keys = []\<rparr>,
      status = Some \<lparr>availableReplicas = Some r, observedGeneration = Some 1\<rparr>\<rparr>"

definition exampleEnv :: "V1beta2Deployment list \<Rightarrow> Env" where
  "exampleEnv items =
     \<lparr>configs = [(''develop'', \<lparr>currentCluster = Some ''https://develop''\<rparr>)],
      allowedNamespaces = None,
      listNamespace = (\<lambda>server t. Inr []),
      listNamespacedPod = (\<lambda>server ns. Inr []),
      listNamespacedDeployment =
        (\<lambda>server ns. if server = ''https://develop'' \<and> ns = ''default'' then Inr items
                      else Inl (ApiError ''not found'')),
      listNamespacedHorizontalPodAutoscaler = (\<lambda>server ns. Inr []),
      readNamespacedDeployment = (\<lambda>server n ns. Inl (ApiError ''not found'')),
      replaceResponse =
        (\<lambda>history request.
           if request_name request = ''a'' \<or> deploymentContainers (request_body request) = []
           then Inl (ApiError ''rejected'')
           else Inr (request_body request)),
      Date_now = 1000\<rparr>"

definition exampleGroup :: ServerGroup where
  "exampleGroup = \<lparr>cluster = ''develop'', namespace = None\<rparr>"

definition emptyWorld :: World where
  "emptyWorld = \<lparr>exchanges = [], events = []\<rparr>"

definition entry :: "string \<Rightarrow> string \<Rightarrow> nat \<Rightarrow> SnapshotDeployment" where
  "entry n u r = \<lparr>snapshot_name = n, snapshot_data = minifyDeployment (exampleDeployment n u r)\<rparr>"

definition exampleItems :: "V1beta2Deployment list" where
  "exampleItems =
     [exampleDeployment ''api'' ''registry/api:v2'' 1,
      exampleDeployment ''web'' ''registry/web:v5'' 2]"

definition exampleSnapshot :: ClusterSnapshot where
  "exampleSnapshot =
     \<lparr>deployments =
        [entry ''api'' ''registry/api:v1'' 3,
         entry ''web'' ''registry/web:v4'' 2,
         entry ''new'' ''registry/new:v1'' 1]\<rparr>"

text \<open>Three deployments that the cluster does not have yet; the first is \<^verbatim>\<open>a\<close>.\<close>

definition failingSnapshot :: ClusterSnapshot where
  "failingSnapshot =
     \<lparr>deployments =
        [entry ''a'' ''registry/a:v1'' 1,
         entry ''b'' ''registry/b:v1'' 1,
         entry ''c'' ''registry/c:v1'' 1]\<rparr>"


definition containerlessEntry :: SnapshotDeployment where
  "containerlessEntry =
     \<lparr>snapshot_name = ''api'',
      snapshot_data =
        minifyDeployment
          ((exampleDeployment ''api'' ''registry/api:v2'' 1)
             \<lparr>spec := (spec (exampleDeployment ''api'' ''registry/api:v2'' 1))
                \<lparr>template := (template (spec (exampleDeployment ''api'' ''registry/api:v2'' 1)))
                   \<lparr>template_spec := \<lparr>containers = [], podspec_other = [], podspec_keys = []\<rparr>\<rparr>\<rparr>\<rparr>)\<rparr>"

definition abortingSnapshot :: ClusterSnapshot where
  "abortingSnapshot =
     \<lparr>deployments =
        [entry ''new'' ''registry/new:v1'' 1,
         containerlessEntry,
         entry ''zzz'' ''registry/zzz:v1'' 1]\<rparr>"

text \<open>
  A cluster that reports three namespaces, a cache state with nothing stored and nothing
  in flight, and a dispatcher whose second pipeline has no reachable schedule.
\<close>

definition exampleNamespace :: "string \<Rightarrow> V1Namespace" where
  "exampleNamespace n =
     \<lparr>namespace_metadata =
        \<lparr>meta_name = n, meta_namespace = None, annotations = None, labels = None,
         uid = Some ''uid'', resourceVersion = None, creationTimestamp = None,
         generation = None, meta_keys = []\<rparr>\<rparr>"

definition namespacesEnv :: "string list option \<Rightarrow> Env" where
  "namespacesEnv allowed =
     (exampleEnv [])
       \<lparr>allowedNamespaces := allowed,
        listNamespace :=
          (\<lambda>server t. Inr [exampleNamespace ''default'', exampleNamespace ''kube-system'',
                            exampleNamespace ''staging''])\<rparr>"


definition noFlights :: "(string, string list) Flights" where
  "noFlights = \<lparr>flights_cache = newCache 60, inflight = (\<lambda>k. None), invoked = [], observed = []\<rparr>"

definition examplePipeline :: "string \<Rightarrow> PipelineDescription" where
  "examplePipeline n = \<lparr>pipeline_name = n, pipeline_cluster = ''develop'', pipeline_cron = None\<rparr>"

definition exampleDispatcher :: Dispatcher where
  "exampleDispatcher =
     \<lparr>call_clusters = Inr [''develop'', ''live''],
      call_namespaces = (\<lambda>c. if c = ''develop'' then Inr [''default''] else Inr [''default'', ''kube-system'']),
      call_pipelines = Inr [examplePipeline ''first'', examplePipeline ''second''],
      call_schedules =
        (\<lambda>p. if pipeline_name p = ''first'' then Inr (Some \<lparr>lastRun = None, nextRuns = [7]\<rparr>)
             else Inl (RejectedWith (Some ''timeout''))),
      call_list = Inr [''api'', ''web''],
      toISOString = (\<lambda>t. ''1970-01-01T00:00:00.007Z'')\<rparr>"

section \<open>Properties of the helpers\<close>

lemma split_not_Nil: "split sep s \<noteq> []"
  by (induction s) (auto split: list.splits)

lemma hd_split: "hd (split sep s) = takeWhile (\<lambda>x. \<not> sep x) s"
  by (induction s) (auto split: list.splits simp: split_not_Nil)

lemma split_no_separator: "\<forall>x\<in>set s. \<not> q x \<Longrightarrow> split q s = [s]"
  by (induction s) auto

lemma length_split: "length (split q s) = Suc (length (filter q s))"
  by (induction s) (auto split: list.splits)

lemma last_split_Cons:
  assumes "\<not> q c"
  shows "last (split q (c # s)) = (if filter q s = [] then c # s else last (split q s))"
proof (cases "filter q s = []")
  case True
  then have "\<forall>x\<in>set (c # s). \<not> q x" using assms by (auto simp: filter_empty_conv)
  then show ?thesis using True split_no_separator[of "c # s" q] by simp
next
  case False
  then have "length (split q s) \<ge> 2" by (simp add: length_split Suc_le_eq)
  then obtain piece p pieces where "split q s = piece # p # pieces"
    by (cases "split q s"; cases "tl (split q s)") auto
  then show ?thesis using False assms by simp
qed

lemma filter_takeWhile_all:
  assumes "\<forall>x\<in>set (dropWhile P s). \<not> q x"
  shows "filter q (takeWhile P s) = filter q s"
proof -
  have "filter q (takeWhile P s @ dropWhile P s) = filter q (takeWhile P s)"
    using assms by (simp only: filter_append) (simp add: filter_empty_conv)
  then show ?thesis by simp
qed

lemma last_split_takeWhile:
  assumes "\<forall>x\<in>set (dropWhile (\<lambda>x. \<not> sep x) s). \<not> q x"
  shows "last (split q (takeWhile (\<lambda>x. \<not> sep x) s)) = takeWhile (\<lambda>x. \<not> sep x) (last (split q s))"
  using assms
proof (induction s)
  case Nil
  then show ?case by simp
next
  case (Cons c s)
  show ?case
  proof (cases "sep c")
    case True
    then have "\<forall>x\<in>set (c # s). \<not> q x" using Cons.prems by simp
    then have "split q (c # s) = [c # s]" by (rule split_no_separator)
    then show ?thesis using True by simp
  next
    case False
    then have later: "\<forall>x\<in>set (dropWhile (\<lambda>x. \<not> sep x) s). \<not> q x" using Cons.prems by simp
    note IH = Cons.IH[OF later]
    have f: "filter q (takeWhile (\<lambda>x. \<not> sep x) s) = filter q s"
      by (rule filter_takeWhile_all[OF later])
    show ?thesis
    proof (cases "q c")
      case True
      then show ?thesis using False IH by (simp add: split_not_Nil)
    next
      case qc: False
      show ?thesis
        using False IH f last_split_Cons[of q c s, OF qc]
          last_split_Cons[of q c "takeWhile (\<lambda>x. \<not> sep x) s", OF qc]
        by simp
    qed
  qed
qed

text \<open>
  Where \<^verbatim>\<open>createImage\<close> and the spec's wording of the name agree: on every url that
  has no slash after its first colon or at-sign. The claim's own example is one.
\<close>

lemma createImage_name_agrees:
  assumes "\<forall>x\<in>set (dropWhile (\<lambda>x. x \<noteq> CHR ''@'' \<and> x \<noteq> CHR '':'') (container_image c)). x \<noteq> CHR ''/''"
  shows "createImage (Some (c # cs)) =
           Some \<lparr>url = container_image c, image_name = spec_imageName (container_image c), tag = None\<rparr>"
proof -
  have "last (split (\<lambda>x. x = CHR ''/'') (takeWhile (\<lambda>x. \<not> (x = CHR ''@'' \<or> x = CHR '':'')) (container_image c)))
      = takeWhile (\<lambda>x. \<not> (x = CHR ''@'' \<or> x = CHR '':'')) (last (split (\<lambda>x. x = CHR ''/'') (container_image c)))"
    using assms by (intro last_split_takeWhile) simp
  then show ?thesis
    by (simp add: createImage_def spec_imageName_def hd_split Let_def)
qed

lemma createImage_example:
  "createImage (Some [\<lparr>container_name = ''api'', container_image = ''registry/api:v2'',
                        container_other = [], container_keys = []\<rparr>])
     = Some \<lparr>url = ''registry/api:v2'', image_name = ''api'', tag = None\<rparr>
   \<and> spec_imageName ''registry/api:v2'' = ''api''"
  by (simp add: createImage_def spec_imageName_def)

text \<open>
  Claim C5, at a url whose registry has a port. The spec's wording strips the registry and
  path prefix and the tag: the name is \<^verbatim>\<open>api\<close>. \<^verbatim>\<open>createImage\<close> cuts the url at its
  first colon, which is the one before the port, and names the image \<^verbatim>\<open>localhost\<close>. The
  url is kept unchanged.
\<close>

theorem createImage_registry_port:
  "createImage (Some [\<lparr>container_name = ''api'', container_image = ''localhost:5000/api:v2'',
                        container_other = [], container_keys = []\<rparr>])
     = Some \<lparr>url = ''localhost:5000/api:v2'', image_name = ''localhost'', tag = None\<rparr>
   \<and> spec_imageName ''localhost:5000/api:v2'' = ''api''"
  by (simp add: createImage_def spec_imageName_def)

text \<open>
  Claim C4. Minifying is idempotent, for every deployment object of the client: the result
  keeps the name, namespace and annotations of the metadata and the spec, and has neither
  status nor any of the metadata the server assigns.
\<close>

theorem minifyDeployment_idempotent:
  "minifyDeployment (minifyDeployment x) = minifyDeployment x
   \<and> meta_name (metadata (minifyDeployment x)) = meta_name (metadata x)
   \<and> meta_namespace (metadata (minifyDeployment x)) = meta_namespace (metadata x)
   \<and> annotations (metadata (minifyDeployment x)) = annotations (metadata x)
   \<and> spec (minifyDeployment x) = spec x
   \<and> status (minifyDeployment x) = None
   \<and> uid (metadata (minifyDeployment x)) = None
   \<and> resourceVersion (metadata (minifyDeployment x)) = None
   \<and> creationTimestamp (metadata (minifyDeployment x)) = None
   \<and> generation (metadata (minifyDeployment x)) = None"
  by (simp add: minifyDeployment_def)

section \<open>Properties of the snapshot loop\<close>

lemma applyDeployment_skip:
  assumes "assignable ign items d" "\<not> differs ign items d"
  shows "applyDeployment env server ns items ign d b = Inr b"
  using assms
  by (auto simp: applyDeployment_def assignable_def differs_def targetOf_def currentOf_def
      needsUpdate_def Let_def split: sum.splits option.splits)

lemma applyDeployment_send:
  assumes "assignable ign items d" "differs ign items d"
  shows "applyDeployment env server ns items ign d b =
     Inr (b\<lparr>applied := applied b @ accepted [(requestOf server ns ign items d,
                  replaceResponse env (exchanges (world b)) (requestOf server ns ign items d))],
            errored := errored b @ rejected [(requestOf server ns ign items d,
                  replaceResponse env (exchanges (world b)) (requestOf server ns ign items d))],
            world := (world b)\<lparr>exchanges := exchanges (world b) @
               [(requestOf server ns ign items d,
                  replaceResponse env (exchanges (world b)) (requestOf server ns ign items d))]\<rparr>\<rparr>)"
  using assms
  by (auto simp: applyDeployment_def assignable_def differs_def targetOf_def currentOf_def
      needsUpdate_def Let_def replaceNamespacedDeployment_def requestOf_def accepted_def rejected_def
      split: sum.splits option.splits)

lemma applyDeployments_run:
  assumes "\<forall>d\<in>set ds. assignable ign items d"
  shows "\<exists>new. applyDeployments env server ns items ign ds b =
           (None, b\<lparr>applied := applied b @ accepted new,
                    errored := errored b @ rejected new,
                    world := (world b)\<lparr>exchanges := exchanges (world b) @ new\<rparr>\<rparr>)
         \<and> map fst new = map (requestOf server ns ign items) (filter (differs ign items) ds)
         \<and> (\<forall>i < length new. snd (new ! i) = replaceResponse env (exchanges (world b) @ take i new) (fst (new ! i)))"
  using assms
proof (induction ds arbitrary: b)
  case Nil
  show ?case by (rule exI[of _ "[]"]) (simp add: accepted_def rejected_def)
next
  case (Cons d ds)
  have a: "assignable ign items d" and rest: "\<forall>d\<in>set ds. assignable ign items d"
    using Cons.prems by auto
  show ?case
  proof (cases "differs ign items d")
    case False
    from Cons.IH[OF rest, of b] obtain new where
      "applyDeployments env server ns items ign ds b =
           (None, b\<lparr>applied := applied b @ accepted new,
                    errored := errored b @ rejected new,
                    world := (world b)\<lparr>exchanges := exchanges (world b) @ new\<rparr>\<rparr>)"
      "map fst new = map (requestOf server ns ign items) (filter (differs ign items) ds)"
      "\<forall>i < length new. snd (new ! i) = replaceResponse env (exchanges (world b) @ take i new) (fst (new ! i))"
      by blast
    then show ?thesis
      using False a by (intro exI[of _ new]) (simp add: applyDeployment_skip)
  next
    case True
    define x where "x = (requestOf server ns ign items d,
                  replaceResponse env (exchanges (world b)) (requestOf server ns ign items d))"
    define b1 where "b1 = b\<lparr>applied := applied b @ accepted [x],
            errored := errored b @ rejected [x],
            world := (world b)\<lparr>exchanges := exchanges (world b) @ [x]\<rparr>\<rparr>"
    have step: "applyDeployment env server ns items ign d b = Inr b1"
      unfolding b1_def x_def by (rule applyDeployment_send[OF a True])
    from Cons.IH[OF rest, of b1] obtain new where n:
      "applyDeployments env server ns items ign ds b1 =
           (None, b1\<lparr>applied := applied b1 @ accepted new,
                    errored := errored b1 @ rejected new,
                    world := (world b1)\<lparr>exchanges := exchanges (world b1) @ new\<rparr>\<rparr>)"
      "map fst new = map (requestOf server ns ign items) (filter (differs ign items) ds)"
      "\<forall>i < length new. snd (new ! i) = replaceResponse env (exchanges (world b1) @ take i new) (fst (new ! i))"
      by blast
    have resp: "\<forall>i < length (x # new). snd ((x # new) ! i) =
        replaceResponse env (exchanges (world b) @ take i (x # new)) (fst ((x # new) ! i))"
    proof (intro allI impI)
      fix i assume "i < length (x # new)"
      then show "snd ((x # new) ! i) =
        replaceResponse env (exchanges (world b) @ take i (x # new)) (fst ((x # new) ! i))"
        using n(3) by (cases i) (auto simp: x_def b1_def)
    qed
    show ?thesis
      using n(1,2) True resp
      by (intro exI[of _ "x # new"]) (simp add: step b1_def accepted_def rejected_def x_def)
  qed
qed


lemma applyDeployment_throw:
  assumes "\<not> assignable ign items d"
  shows "\<exists>e. applyDeployment env server ns items ign d b = Inl e"
  using assms
  by (auto simp: applyDeployment_def assignable_def currentOf_def Let_def split: sum.splits)

lemma applyDeployments_any:
  "\<exists>new. snd (applyDeployments env server ns items ign ds b) =
           b\<lparr>applied := applied b @ accepted new,
             errored := errored b @ rejected new,
             world := (world b)\<lparr>exchanges := exchanges (world b) @ new\<rparr>\<rparr>
         \<and> (\<forall>x\<in>set new. \<exists>d\<in>set ds. assignable ign items d \<and> differs ign items d
                \<and> fst x = requestOf server ns ign items d)"
proof (induction ds arbitrary: b)
  case Nil
  show ?case by (rule exI[of _ "[]"]) (simp add: accepted_def rejected_def)
next
  case (Cons d ds)
  show ?case
  proof (cases "assignable ign items d")
    case False
    then obtain e where "applyDeployment env server ns items ign d b = Inl e"
      using applyDeployment_throw by blast
    then show ?thesis
      by (intro exI[of _ "[]"]) (simp add: accepted_def rejected_def)
  next
    case a: True
    show ?thesis
    proof (cases "differs ign items d")
      case False
      from Cons.IH[of b] obtain new where
        "snd (applyDeployments env server ns items ign ds b) =
           b\<lparr>applied := applied b @ accepted new,
             errored := errored b @ rejected new,
             world := (world b)\<lparr>exchanges := exchanges (world b) @ new\<rparr>\<rparr>"
        "\<forall>x\<in>set new. \<exists>d\<in>set ds. assignable ign items d \<and> differs ign items d
                \<and> fst x = requestOf server ns ign items d"
        by blast
      then show ?thesis
        using False a by (intro exI[of _ new]) (simp add: applyDeployment_skip)
    next
      case True
      define x where "x = (requestOf server ns ign items d,
                  replaceResponse env (exchanges (world b)) (requestOf server ns ign items d))"
      define b1 where "b1 = b\<lparr>applied := applied b @ accepted [x],
            errored := errored b @ rejected [x],
            world := (world b)\<lparr>exchanges := exchanges (world b) @ [x]\<rparr>\<rparr>"
      have step: "applyDeployment env server ns items ign d b = Inr b1"
        unfolding b1_def x_def by (rule applyDeployment_send[OF a True])
      from Cons.IH[of b1] obtain new where n:
        "snd (applyDeployments env server ns items ign ds b1) =
           b1\<lparr>applied := applied b1 @ accepted new,
             errored := errored b1 @ rejected new,
             world := (world b1)\<lparr>exchanges := exchanges (world b1) @ new\<rparr>\<rparr>"
        "\<forall>x\<in>set new. \<exists>d\<in>set ds. assignable ign items d \<and> differs ign items d
                \<and> fst x = requestOf server ns ign items d"
        by blast
      have "fst x = requestOf server ns ign items d" by (simp add: x_def)
      then show ?thesis
        using n True a
        by (intro exI[of _ "x # new"]) (auto simp: step b1_def accepted_def rejected_def)
    qed
  qed
qed

lemma createImage_Some:
  "createImage (Some cs) = Some img \<Longrightarrow> cs \<noteq> [] \<and> url img = container_image (hd cs)"
  by (auto simp: createImage_def Let_def split: list.splits)

lemma createImage_first:
  "cs \<noteq> [] \<Longrightarrow> cs' \<noteq> [] \<Longrightarrow> container_image (hd cs) = container_image (hd cs')
     \<Longrightarrow> createImage (Some cs) = createImage (Some cs')"
  by (auto simp: createImage_def Let_def split: list.splits)

lemma setFirstContainerImage_first:
  "setFirstContainerImage t u = Inr t' \<Longrightarrow>
     deploymentContainers t' \<noteq> [] \<and> container_image (hd (deploymentContainers t')) = u"
  by (auto simp: setFirstContainerImage_def deploymentContainers_def split: list.splits)

lemma targetOf_keeps_image:
  assumes "assignable True items d" "currentOf items d = Some c"
    "createImage (Some (deploymentContainers c)) = Some img"
  shows "createImage (Some (deploymentContainers (targetOf True items d))) = Some img"
proof -
  from assms obtain t where t: "setFirstContainerImage (snapshot_data d) (url img) = Inr t"
    "targetOf True items d = t"
    by (auto simp: assignable_def targetOf_def snapshotTarget_def Let_def split: sum.splits)
  have c: "deploymentContainers c \<noteq> []" "url img = container_image (hd (deploymentContainers c))"
    using createImage_Some[OF assms(3)] by auto
  have "createImage (Some (deploymentContainers t)) = createImage (Some (deploymentContainers c))"
    using setFirstContainerImage_first[OF t(1)] c by (intro createImage_first) auto
  then show ?thesis using t(2) assms(3) by simp
qed

text \<open>
  Claim C1. With \<^verbatim>\<open>ignoreImage\<close> set, every replace request that \<^verbatim>\<open>applySnapshot\<close>
  sends for a deployment found in the target cluster carries the image that deployment is
  running: whatever image the snapshot records, the running image has been written into
  the target before the comparison and the request. This holds for every server group,
  snapshot and listing, also for the requests sent before a later entry makes the method
  throw. The image of a deployment is the one \<^verbatim>\<open>createImage\<close> reports, that of its
  first container.
\<close>

theorem applySnapshot_keeps_running_image:
  assumes "build env (cluster grp) = Inr server"
    and "listNamespacedDeployment env server (getNamespace grp) = Inr items"
    and "x \<in> set (drop (length (exchanges w)) (exchanges (snd (applySnapshot env grp snapshot True w))))"
    and "find (\<lambda>d. meta_name (metadata d) = request_name (fst x)) items = Some c"
    and "deployment_image (toDeployment c) = Some img"
  shows "deployment_image (toDeployment (request_body (fst x))) = Some img"
proof -
  obtain new where new:
    "snd (applyDeployments env server (getNamespace grp) items True (deployments snapshot)
            \<lparr>applied = [], errored = [], world = w\<rparr>) =
       \<lparr>applied = [], errored = [], world = w\<rparr>\<lparr>applied := [] @ accepted new,
             errored := [] @ rejected new,
             world := w\<lparr>exchanges := exchanges w @ new\<rparr>\<rparr>"
    "\<forall>x\<in>set new. \<exists>d\<in>set (deployments snapshot). assignable True items d
         \<and> differs True items d \<and> fst x = requestOf server (getNamespace grp) True items d"
    using applyDeployments_any[of env server "getNamespace grp" items True "deployments snapshot"
        "\<lparr>applied = [], errored = [], world = w\<rparr>"] by auto
  have "exchanges (snd (applySnapshot env grp snapshot True w)) = exchanges w @ new"
    using new(1) assms(1,2)
    by (auto simp: applySnapshot_def Let_def split: prod.splits option.splits)
  then have "x \<in> set new" using assms(3) by simp
  then obtain d where d: "assignable True items d"
    "fst x = requestOf server (getNamespace grp) True items d"
    using new(2) by blast
  have cur: "currentOf items d = Some c"
    using assms(4) d(2) by (simp add: currentOf_def requestOf_def)
  have "createImage (Some (deploymentContainers c)) = Some img"
    using assms(5) by (simp add: toDeployment_def)
  from targetOf_keeps_image[OF d(1) cur this] show ?thesis
    using d(2) by (simp add: toDeployment_def requestOf_def)
qed

text \<open>
  The image assignment throws exactly when \<^verbatim>\<open>ignoreImage\<close> is set, the deployment is
  found running with a container, and the recorded target has none. A snapshot that nowhere
  differs from the cluster changes nothing.
\<close>

lemma assignable_iff:
  "assignable ignoreImage items d \<longleftrightarrow>
     \<not> (ignoreImage
        \<and> (\<exists>c. currentOf items d = Some c \<and> deploymentContainers c \<noteq> [])
        \<and> deploymentContainers (snapshot_data d) = [])"
  by (auto simp: assignable_def snapshotTarget_def createImage_def setFirstContainerImage_def Let_def
      split: option.splits list.splits sum.splits)


lemma accepted_rejected_length: "length (accepted new) + length (rejected new) = length new"
  by (induction new) (auto simp: accepted_def rejected_def)


lemma applyDeployments_fst_None:
  "fst (applyDeployments env server ns items ign ds b) = None \<longleftrightarrow> (\<forall>d\<in>set ds. assignable ign items d)"
proof (induction ds arbitrary: b)
  case Nil
  show ?case by simp
next
  case (Cons d ds)
  show ?case
  proof (cases "assignable ign items d")
    case False
    then obtain e where "applyDeployment env server ns items ign d b = Inl e"
      using applyDeployment_throw by blast
    then show ?thesis using False by simp
  next
    case True
    then show ?thesis
      using Cons.IH applyDeployment_skip[OF True, of env server ns b]
        applyDeployment_send[OF True, of env server ns b]
      by (cases "differs ign items d") auto
  qed
qed



lemma applyDeployments_abort:
  assumes "\<forall>d\<in>set before. assignable ign items d" and "\<not> assignable ign items d"
  shows "\<exists>e. applyDeployments env server ns items ign (before @ d # later) b =
           (Some e, snd (applyDeployments env server ns items ign before b))"
  using assms
proof (induction before arbitrary: b)
  case Nil
  then obtain e where "applyDeployment env server ns items ign d b = Inl e"
    using applyDeployment_throw by blast
  then show ?case by simp
next
  case (Cons x before)
  have a: "assignable ign items x" using Cons.prems(1) by simp
  have rest: "\<forall>d\<in>set before. assignable ign items d" using Cons.prems(1) by simp
  obtain b' where step: "applyDeployment env server ns items ign x b = Inr b'"
    using applyDeployment_skip[OF a, of env server ns b] applyDeployment_send[OF a, of env server ns b]
    by (cases "differs ign items x") auto
  from Cons.IH[OF rest Cons.prems(2), of b'] show ?case by (simp add: step)
qed


text \<open>
  Where the loop isolates failures: when the image assignment goes through for every
  entry, a rejected replace request does not stop it. Every entry that needs a request
  gets one, in order; the label of each rejected request is in \<^verbatim>\<open>errored\<close>, the label
  of each answered one in \<^verbatim>\<open>applied\<close>, and the method returns without throwing.
\<close>

lemma applySnapshot_isolates_failures:
  assumes "build env (cluster grp) = Inr server"
    and "listNamespacedDeployment env server (getNamespace grp) = Inr items"
    and "\<forall>d\<in>set (deployments snapshot). assignable ignoreImage items d"
  shows "\<exists>new.
           applyDeployments env server (getNamespace grp) items ignoreImage (deployments snapshot)
               \<lparr>applied = [], errored = [], world = w\<rparr> =
             (None, \<lparr>applied = accepted new, errored = rejected new,
                     world = w\<lparr>exchanges := exchanges w @ new\<rparr>\<rparr>)
         \<and> map fst new = map (requestOf server (getNamespace grp) ignoreImage items)
                            (filter (differs ignoreImage items) (deployments snapshot))
         \<and> (\<forall>i < length new.
                snd (new ! i) = replaceResponse env (exchanges w @ take i new) (fst (new ! i)))
         \<and> fst (applySnapshot env grp snapshot ignoreImage w) = Inr ()
         \<and> exchanges (snd (applySnapshot env grp snapshot ignoreImage w)) = exchanges w @ new"
proof -
  obtain new where new:
    "applyDeployments env server (getNamespace grp) items ignoreImage (deployments snapshot)
        \<lparr>applied = [], errored = [], world = w\<rparr> =
       (None, \<lparr>applied = [], errored = [], world = w\<rparr>\<lparr>applied := [] @ accepted new,
             errored := [] @ rejected new,
             world := w\<lparr>exchanges := exchanges w @ new\<rparr>\<rparr>)"
    "map fst new = map (requestOf server (getNamespace grp) ignoreImage items)
                     (filter (differs ignoreImage items) (deployments snapshot))"
    "\<forall>i < length new.
        snd (new ! i) = replaceResponse env (exchanges w @ take i new) (fst (new ! i))"
    using applyDeployments_run[OF assms(3), of env server "getNamespace grp"
        "\<lparr>applied = [], errored = [], world = w\<rparr>"] by auto
  show ?thesis
    using new assms(1,2) by (intro exI[of _ new]) (simp add: applySnapshot_def Let_def)
qed

text \<open>
  The events of \<^verbatim>\<open>applySnapshot\<close>, for every input: at most one, and exactly one when
  the method returns and at least one request was sent, with one \<^verbatim>\<open>Failure\<close> field per
  rejected and one \<^verbatim>\<open>Success\<close> field per answered request. None when no request was
  sent, and none when the method throws.
\<close>

lemma applySnapshot_event:
  "\<exists>new.
     exchanges (snd (applySnapshot env grp snapshot ignoreImage w)) = exchanges w @ new
   \<and> length (rejected new) + length (accepted new) = length new
   \<and> events (snd (applySnapshot env grp snapshot ignoreImage w)) =
       events w @
         (if fst (applySnapshot env grp snapshot ignoreImage w) = Inr () \<and> new \<noteq> []
          then [\<lparr>message = ''Applied Snapshots'',
                 timestamp = Date_now env,
                 topics = [''slack''],
                 description =
                   ''Applied Snapshots in '' @ cluster grp @ '' '' @ infinity_sign @ '' ''
                     @ (case namespace grp of None \<Rightarrow> ''undefined'' | Some n \<Rightarrow> n),
                 event_fields =
                   map (\<lambda>v. \<lparr>field_value = v, field_title = ''Failure''\<rparr>) (rejected new)
                     @ map (\<lambda>v. \<lparr>field_value = v, field_title = ''Success''\<rparr>) (accepted new)\<rparr>]
          else [])"
proof (cases "build env (cluster grp)")
  case (Inl e)
  then show ?thesis
    by (intro exI[of _ "[]"]) (simp add: applySnapshot_def accepted_def rejected_def)
next
  case (Inr server)
  show ?thesis
  proof (cases "listNamespacedDeployment env server (getNamespace grp)")
    case (Inl e)
    then show ?thesis using Inr
      by (intro exI[of _ "[]"]) (simp add: applySnapshot_def accepted_def rejected_def)
  next
    case items: (Inr items)
    define run where "run = applyDeployments env server (getNamespace grp) items ignoreImage
        (deployments snapshot) \<lparr>applied = [], errored = [], world = w\<rparr>"
    obtain new where new:
      "snd run = \<lparr>applied = accepted new, errored = rejected new,
                  world = w\<lparr>exchanges := exchanges w @ new\<rparr>\<rparr>"
      using applyDeployments_any[of env server "getNamespace grp" items ignoreImage
          "deployments snapshot" "\<lparr>applied = [], errored = [], world = w\<rparr>"]
      unfolding run_def by auto
    have len: "length (rejected new) + length (accepted new) = length new"
      using accepted_rejected_length[of new] by simp
    have ap: "applySnapshot env grp snapshot ignoreImage w =
        (case run of
           (Some e, b) \<Rightarrow> (Inl e, world b)
         | (None, b) \<Rightarrow>
             (if length (applied b) + length (errored b) > 0
              then (Inr (), (world b)\<lparr>events := events (world b) @ [appliedSnapshotsEvent env grp b]\<rparr>)
              else (Inr (), world b)))"
      using Inr items by (simp add: applySnapshot_def Let_def run_def)
    show ?thesis
    proof (cases "fst run")
      case None
      then have r: "run = (None, \<lparr>applied = accepted new, errored = rejected new,
                  world = w\<lparr>exchanges := exchanges w @ new\<rparr>\<rparr>)"
        using new by (cases run) simp
      show ?thesis
        using len accepted_rejected_length[of new]
        by (intro exI[of _ new]) (auto simp: ap r appliedSnapshotsEvent_def)
    next
      case (Some e)
      then have r: "run = (Some e, \<lparr>applied = accepted new, errored = rejected new,
                  world = w\<lparr>exchanges := exchanges w @ new\<rparr>\<rparr>)"
        using new by (cases run) simp
      show ?thesis
        using len by (intro exI[of _ new]) (simp add: ap r)
    qed
  qed
qed
section \<open>Properties of the namespace default\<close>

lemma getNamespace_absent: "getNamespace \<lparr>cluster = c, namespace = None\<rparr> = ''default''"
  by (simp add: getNamespace_def)

lemma getNamespace_default: "getNamespace \<lparr>cluster = c, namespace = Some ''default''\<rparr> = ''default''"
  by (simp add: getNamespace_def)

text \<open>
  \<^verbatim>\<open>getNamespace\<close> gives \<^verbatim>\<open>default\<close> for a group without a namespace, and every
  operation of the repository that takes a group does for it what it does for the group
  with the namespace \<^verbatim>\<open>default\<close>, up to the description of the event: the same
  listing or reading, the same result, the same replace requests with the same answers,
  and events with the same message, timestamp, topics and fields.
\<close>

lemma absent_namespace_elsewhere_default:
  "getNamespace \<lparr>cluster = c, namespace = None\<rparr> = ''default''
   \<and> getNamespace \<lparr>cluster = c, namespace = Some ''default''\<rparr> = ''default''
   \<and> pods env \<lparr>cluster = c, namespace = None\<rparr> = pods env \<lparr>cluster = c, namespace = Some ''default''\<rparr>
   \<and> deployments_of env \<lparr>cluster = c, namespace = None\<rparr>
       = deployments_of env \<lparr>cluster = c, namespace = Some ''default''\<rparr>
   \<and> scalers env \<lparr>cluster = c, namespace = None\<rparr> = scalers env \<lparr>cluster = c, namespace = Some ''default''\<rparr>
   \<and> takeSnapshot env \<lparr>cluster = c, namespace = None\<rparr>
       = takeSnapshot env \<lparr>cluster = c, namespace = Some ''default''\<rparr>
   \<and> updateDeployment env \<lparr>cluster = c, namespace = None\<rparr> deployment targetImage w
       = updateDeployment env \<lparr>cluster = c, namespace = Some ''default''\<rparr> deployment targetImage w
   \<and> fst (applySnapshot env \<lparr>cluster = c, namespace = None\<rparr> snapshot ignoreImage w)
       = fst (applySnapshot env \<lparr>cluster = c, namespace = Some ''default''\<rparr> snapshot ignoreImage w)
   \<and> exchanges (snd (applySnapshot env \<lparr>cluster = c, namespace = None\<rparr> snapshot ignoreImage w))
       = exchanges (snd (applySnapshot env \<lparr>cluster = c, namespace = Some ''default''\<rparr> snapshot ignoreImage w))
   \<and> map (\<lambda>e. (message e, timestamp e, topics e, event_fields e))
         (events (snd (applySnapshot env \<lparr>cluster = c, namespace = None\<rparr> snapshot ignoreImage w)))
       = map (\<lambda>e. (message e, timestamp e, topics e, event_fields e))
         (events (snd (applySnapshot env \<lparr>cluster = c, namespace = Some ''default''\<rparr> snapshot ignoreImage w)))"
proof -
  have ap: "\<And>g. cluster g = c \<Longrightarrow> getNamespace g = ''default'' \<Longrightarrow>
     fst (applySnapshot env g snapshot ignoreImage w)
       = fst (applySnapshot env \<lparr>cluster = c, namespace = Some ''default''\<rparr> snapshot ignoreImage w)
     \<and> exchanges (snd (applySnapshot env g snapshot ignoreImage w))
       = exchanges (snd (applySnapshot env \<lparr>cluster = c, namespace = Some ''default''\<rparr> snapshot ignoreImage w))
     \<and> map (\<lambda>e. (message e, timestamp e, topics e, event_fields e))
         (events (snd (applySnapshot env g snapshot ignoreImage w)))
       = map (\<lambda>e. (message e, timestamp e, topics e, event_fields e))
         (events (snd (applySnapshot env \<lparr>cluster = c, namespace = Some ''default''\<rparr> snapshot ignoreImage w)))"
    by (auto simp: applySnapshot_def getNamespace_default Let_def appliedSnapshotsEvent_def
        split: sum.splits prod.splits option.splits)
  have up: "updateDeployment env \<lparr>cluster = c, namespace = None\<rparr> deployment targetImage w
       = updateDeployment env \<lparr>cluster = c, namespace = Some ''default''\<rparr> deployment targetImage w"
    by (simp add: updateDeployment_def getNamespace_absent getNamespace_default Let_def
        split: sum.splits)
  have n: "getNamespace \<lparr>cluster = c, namespace = None\<rparr>
             = getNamespace \<lparr>cluster = c, namespace = Some ''default''\<rparr>"
    by (simp add: getNamespace_def)
  have reads:
    "pods env \<lparr>cluster = c, namespace = None\<rparr> = pods env \<lparr>cluster = c, namespace = Some ''default''\<rparr>"
    "deployments_of env \<lparr>cluster = c, namespace = None\<rparr>
       = deployments_of env \<lparr>cluster = c, namespace = Some ''default''\<rparr>"
    "scalers env \<lparr>cluster = c, namespace = None\<rparr> = scalers env \<lparr>cluster = c, namespace = Some ''default''\<rparr>"
    "takeSnapshot env \<lparr>cluster = c, namespace = None\<rparr>
       = takeSnapshot env \<lparr>cluster = c, namespace = Some ''default''\<rparr>"
    unfolding pods_def deployments_of_def scalers_def takeSnapshot_def n by simp_all
  show ?thesis
    using ap[of "\<lparr>cluster = c, namespace = None\<rparr>"] up reads
    by (simp add: getNamespace_absent getNamespace_default)
qed

text \<open>
  The one place where the two groups show: the description text of the event of
  \<^verbatim>\<open>applySnapshot\<close> prints \<^verbatim>\<open>group.namespace\<close> as it was given.
\<close>

lemma description_differs:
  "description (appliedSnapshotsEvent env \<lparr>cluster = c, namespace = None\<rparr> b)
     \<noteq> description (appliedSnapshotsEvent env \<lparr>cluster = c, namespace = Some ''default''\<rparr> b)"
  by (simp add: appliedSnapshotsEvent_def)

section \<open>Properties of the namespaces cache\<close>

lemma cacheHolds_newCache: "cacheHolds env (newCache seconds)"
  by (simp add: cacheHolds_def newCache_def)

lemma namespaces_preserves:
  assumes "cacheHolds env cache"
  shows "cacheHolds env (snd (namespaces env cache now c))"
  using assms
  by (auto simp: namespaces_def calculate_def cacheHolds_def split: option.splits sum.splits if_splits)

lemma listAllowedNamespaces_Inr:
  assumes "listAllowedNamespaces env t c = Inr v"
  shows "\<exists>server items. build env c = Inr server \<and> listNamespace env server t = Inr items
            \<and> v = filter (isNamespaceAllowed env) (map (\<lambda>item. meta_name (namespace_metadata item)) items)"
  using assms by (auto simp: listAllowedNamespaces_def split: sum.splits)

lemma namespaces_Inr:
  assumes "cacheHolds env cache" and "namespaces env cache now c = (Inr result, cache')"
  shows "\<exists>t. (t = now \<or> now < t + ttl cache) \<and> listAllowedNamespaces env t c = Inr result"
  using assms
  by (auto simp: namespaces_def calculate_def cacheHolds_def isFresh_def
      split: option.splits sum.splits if_splits)

lemma isNamespaceAllowed_iff:
  "isNamespaceAllowed env ns \<longleftrightarrow> (case allowedNamespaces env of None \<Rightarrow> True | Some allowed \<Rightarrow> ns \<in> set allowed)"
  by (auto simp: isNamespaceAllowed_def find_None_iff split: option.splits)

text \<open>
  Claim C10. Whenever \<^verbatim>\<open>namespaces\<close> returns a list, the list is what the cluster
  reported, either now or when the entry still fresh in the cache was computed, filtered by
  the allowed namespaces: with a configured list, the reported names that are in the list,
  in order, and nothing else; with no list, every reported name.
\<close>

theorem namespaces_allowed:
  assumes "cacheHolds env cache" and "namespaces env cache now c = (Inr result, cache')"
  shows "cacheHolds env cache'
       \<and> (\<exists>t server items.
             (t = now \<or> now < t + ttl cache)
           \<and> build env c = Inr server
           \<and> listNamespace env server t = Inr items
           \<and> (case allowedNamespaces env of
                 None \<Rightarrow> result = map (\<lambda>item. meta_name (namespace_metadata item)) items
               | Some allowed \<Rightarrow>
                   set result \<subseteq> set allowed
                   \<and> result = filter (\<lambda>ns. ns \<in> set allowed)
                                (map (\<lambda>item. meta_name (namespace_metadata item)) items)))"
proof -
  have "cacheHolds env cache'"
    using namespaces_preserves[OF assms(1), of now c] assms(2) by simp
  moreover
  obtain t where t: "t = now \<or> now < t + ttl cache" "listAllowedNamespaces env t c = Inr result"
    using namespaces_Inr[OF assms] by blast
  obtain server items where si: "build env c = Inr server" "listNamespace env server t = Inr items"
    "result = filter (isNamespaceAllowed env) (map (\<lambda>item. meta_name (namespace_metadata item)) items)"
    using listAllowedNamespaces_Inr[OF t(2)] by blast
  have "case allowedNamespaces env of
                 None \<Rightarrow> result = map (\<lambda>item. meta_name (namespace_metadata item)) items
               | Some allowed \<Rightarrow>
                   set result \<subseteq> set allowed
                   \<and> result = filter (\<lambda>ns. ns \<in> set allowed)
                                (map (\<lambda>item. meta_name (namespace_metadata item)) items)"
    using si(3) by (auto simp: isNamespaceAllowed_iff split: option.splits intro!: filter_cong)
  ultimately show ?thesis using t(1) si(1,2) by blast
qed

section \<open>Properties of overlapping cache calls\<close>

lemma arrive_joins:
  assumes "inflight f key = Some waiting" "\<not> isFresh (flights_cache f) now key"
  shows "inflight (arrive f now caller key) = (inflight f)(key \<mapsto> waiting @ [caller])"
    and "invoked (arrive f now caller key) = invoked f"
    and "observed (arrive f now caller key) = observed f"
    and "flights_cache (arrive f now caller key) = flights_cache f"
  using assms by (simp_all add: arrive_def)

lemma arrive_invokes:
  assumes "inflight f key = None" "\<not> isFresh (flights_cache f) now key"
  shows "inflight (arrive f now caller key) = (inflight f)(key \<mapsto> [caller])"
    and "invoked (arrive f now caller key) = invoked f @ [key]"
    and "observed (arrive f now caller key) = observed f"
    and "flights_cache (arrive f now caller key) = flights_cache f"
  using assms by (simp_all add: arrive_def)

lemma arrivals_join:
  assumes "inflight f key = Some waiting"
    and "\<forall>call\<in>set calls. \<not> isFresh (flights_cache f) (fst call) key"
  shows "inflight (arrivals f calls key) = (inflight f)(key \<mapsto> waiting @ map snd calls)
       \<and> invoked (arrivals f calls key) = invoked f
       \<and> observed (arrivals f calls key) = observed f
       \<and> flights_cache (arrivals f calls key) = flights_cache f"
  using assms
proof (induction calls arbitrary: f waiting)
  case Nil
  have "(inflight f)(key \<mapsto> waiting) = inflight f"
    using Nil(1) by (rule map_upd_triv)
  then show ?case by simp
next
  case (Cons call calls)
  obtain now caller where call: "call = (now, caller)" by (cases call)
  have nf: "\<not> isFresh (flights_cache f) now key" using Cons.prems(2) call by simp
  define f1 where "f1 = arrive f now caller key"
  note a = arrive_joins[OF Cons.prems(1) nf, of caller, folded f1_def]
  have "inflight f1 key = Some (waiting @ [caller])" by (simp add: a(1))
  moreover have "\<forall>call\<in>set calls. \<not> isFresh (flights_cache f1) (fst call) key"
    using Cons.prems(2) by (simp add: a(4))
  ultimately have
    "inflight (arrivals f1 calls key) = (inflight f1)(key \<mapsto> (waiting @ [caller]) @ map snd calls)
       \<and> invoked (arrivals f1 calls key) = invoked f1
       \<and> observed (arrivals f1 calls key) = observed f1
       \<and> flights_cache (arrivals f1 calls key) = flights_cache f1"
    by (rule Cons.IH)
  then show ?case by (simp add: call a f1_def[symmetric])
qed

text \<open>
  Claim C9. When no computation is in flight for a key and callers arrive for it, one
  after the other, each at a time at which the key has no fresh value, then by the time
  the supplier settles it has been invoked exactly once for all of them, and every caller
  observes the one outcome, the result or the failure. A result is stored, a failure is
  not.
\<close>

theorem calculate_single_flight:
  assumes "inflight f key = None"
    and "calls \<noteq> []"
    and "\<forall>call\<in>set calls. \<not> isFresh (flights_cache f) (fst call) key"
  shows "invoked (settle (arrivals f calls key) now key outcome) = invoked f @ [key]
       \<and> observed (settle (arrivals f calls key) now key outcome)
           = observed f @ map (\<lambda>call. (snd call, outcome)) calls
       \<and> inflight (settle (arrivals f calls key) now key outcome) key = None
       \<and> entries (flights_cache (settle (arrivals f calls key) now key outcome)) key
           = (case outcome of Inl e \<Rightarrow> None | Inr v \<Rightarrow> Some (v, now))"
proof -
  obtain t caller later where calls: "calls = (t, caller) # later"
    using assms(2) by (cases calls) auto
  have nf: "\<not> isFresh (flights_cache f) t key" using assms(3) calls by simp
  define f1 where "f1 = arrive f t caller key"
  note a = arrive_invokes[OF assms(1) nf, of caller, folded f1_def]
  have "inflight f1 key = Some [caller]" by (simp add: a(1))
  moreover have "\<forall>call\<in>set later. \<not> isFresh (flights_cache f1) (fst call) key"
    using assms(3) calls by (simp add: a(4))
  ultimately have j:
    "inflight (arrivals f1 later key) = (inflight f1)(key \<mapsto> [caller] @ map snd later)
       \<and> invoked (arrivals f1 later key) = invoked f1
       \<and> observed (arrivals f1 later key) = observed f1
       \<and> flights_cache (arrivals f1 later key) = flights_cache f1"
    by (rule arrivals_join)
  have run: "arrivals f calls key = arrivals f1 later key"
    by (simp add: calls f1_def)
  show ?thesis
    unfolding run using j
    by (simp add: settle_def a calls comp_def split: sum.splits)
qed

text \<open>A single call that arrives and settles at once is \<^verbatim>\<open>calculate\<close>.\<close>

lemma calculate_is_arrive_settle:
  assumes "inflight f key = None"
  shows "flights_cache (settle (arrive f now caller key) now key supplied)
           = snd (calculate (flights_cache f) now key supplied)
       \<and> observed (settle (arrive f now caller key) now key supplied)
           = observed f @ [(caller, fst (calculate (flights_cache f) now key supplied))]"
  using assms
  by (auto simp: arrive_def settle_def calculate_def split: option.splits sum.splits)

section \<open>Properties of the dashboard\<close>

lemma clustersWithNamespaces_all:
  assumes "list_all (\<lambda>c. \<not> isl (call_namespaces d c)) cs"
  shows "clustersWithNamespaces d cs acc =
           (None, acc @ map (\<lambda>c. \<lparr>view_name = c, view_namespaces = projr (call_namespaces d c)\<rparr>) cs)"
  using assms
  by (induction cs arbitrary: acc) (auto split: sum.splits)

lemma clustersWithNamespaces_fails:
  assumes "\<not> list_all (\<lambda>c. \<not> isl (call_namespaces d c)) cs"
  shows "\<exists>e views c. clustersWithNamespaces d cs acc = (Some e, views)
            \<and> c \<in> set cs \<and> call_namespaces d c = Inl e"
  using assms
proof (induction cs arbitrary: acc)
  case Nil
  then show ?case by simp
next
  case (Cons c cs)
  show ?case
  proof (cases "call_namespaces d c")
    case (Inl e)
    then show ?thesis by auto
  next
    case (Inr ns)
    then have "\<not> list_all (\<lambda>c. \<not> isl (call_namespaces d c)) cs" using Cons.prems by simp
    from Cons.IH[OF this, of "acc @ [\<lparr>view_name = c, view_namespaces = ns\<rparr>]"]
    show ?thesis using Inr by auto
  qed
qed

lemma jobsWithSchedules_all:
  assumes "list_all (\<lambda>p. \<not> isl (call_schedules d p)) ps"
  shows "jobsWithSchedules d ps acc =
           (None, acc @ map (\<lambda>p. jobView d p (projr (call_schedules d p))) ps)"
  using assms
  by (induction ps arbitrary: acc) (auto split: sum.splits)

lemma jobsWithSchedules_fails:
  assumes "\<not> list_all (\<lambda>p. \<not> isl (call_schedules d p)) ps"
  shows "\<exists>e views p. jobsWithSchedules d ps acc = (Some e, views)
            \<and> p \<in> set ps \<and> call_schedules d p = Inl e"
  using assms
proof (induction ps arbitrary: acc)
  case Nil
  then show ?case by simp
next
  case (Cons p ps)
  show ?case
  proof (cases "call_schedules d p")
    case (Inl e)
    then show ?thesis by auto
  next
    case (Inr s)
    then have "\<not> list_all (\<lambda>p. \<not> isl (call_schedules d p)) ps" using Cons.prems by simp
    from Cons.IH[OF this, of "acc @ [jobView d p s]"]
    show ?thesis using Inr by auto
  qed
qed

lemma caught_readable: "readable e \<Longrightarrow> caught prefix e = Inr (prefix @ messageText e)"
  by (cases e) (auto simp: caught_def readable_def messageText_def split: option.splits)

lemma loadClusters_ok:
  assumes "clustersLoaded d" "call_clusters d = Inr cs"
  shows "loadClusters d =
     Inr (Some (map (\<lambda>c. \<lparr>view_name = c, view_namespaces = projr (call_namespaces d c)\<rparr>) cs), [])"
  using assms by (simp add: loadClusters_def clustersLoaded_def clustersWithNamespaces_all)

lemma loadClusters_failed:
  assumes "\<not> clustersLoaded d" "readableRejections d"
  shows "\<exists>e views. loadClusters d = Inr (views, [''Clusters could not be loaded: '' @ messageText e])
           \<and> (call_clusters d = Inl e
                \<or> (\<exists>cs c. call_clusters d = Inr cs \<and> c \<in> set cs \<and> call_namespaces d c = Inl e))"
proof (cases "call_clusters d")
  case (Inl e)
  then have "readable e" using assms(2) by (simp add: readableRejections_def)
  then show ?thesis using Inl by (auto simp: loadClusters_def caught_readable)
next
  case (Inr cs)
  then have "\<not> list_all (\<lambda>c. \<not> isl (call_namespaces d c)) cs"
    using assms(1) by (simp add: clustersLoaded_def)
  from clustersWithNamespaces_fails[OF this, of "[]"] obtain e views c where f:
    "clustersWithNamespaces d cs [] = (Some e, views)" "c \<in> set cs" "call_namespaces d c = Inl e"
    by blast
  then have "readable e" using assms(2) by (simp add: readableRejections_def)
  then show ?thesis using Inr f by (auto simp: loadClusters_def caught_readable)
qed

lemma loadJobs_ok:
  assumes "jobsLoaded d" "call_pipelines d = Inr ps"
  shows "loadJobs d = Inr (Some (map (\<lambda>p. jobView d p (projr (call_schedules d p))) ps), [])"
  using assms by (simp add: loadJobs_def jobsLoaded_def jobsWithSchedules_all)

lemma loadJobs_failed:
  assumes "\<not> jobsLoaded d" "readableRejections d"
  shows "\<exists>e views. loadJobs d = Inr (views, [''Jobs could not be loaded: '' @ messageText e])
           \<and> (call_pipelines d = Inl e
                \<or> (\<exists>ps p. call_pipelines d = Inr ps \<and> p \<in> set ps \<and> call_schedules d p = Inl e))"
proof (cases "call_pipelines d")
  case (Inl e)
  then have "readable e" using assms(2) by (simp add: readableRejections_def)
  then show ?thesis using Inl by (auto simp: loadJobs_def caught_readable)
next
  case (Inr ps)
  then have "\<not> list_all (\<lambda>p. \<not> isl (call_schedules d p)) ps"
    using assms(1) by (simp add: jobsLoaded_def)
  from jobsWithSchedules_fails[OF this, of "[]"] obtain e views p where f:
    "jobsWithSchedules d ps [] = (Some e, views)" "p \<in> set ps" "call_schedules d p = Inl e"
    by blast
  then have "readable e" using assms(2) by (simp add: readableRejections_def)
  then show ?thesis using Inr f by (auto simp: loadJobs_def caught_readable)
qed

lemma loadImages_ok:
  assumes "call_list d = Inr images"
  shows "loadImages d = Inr (Some images, [])"
  using assms by (simp add: loadImages_def)

lemma loadImages_failed:
  assumes "\<not> imagesLoaded d" "readableRejections d"
  shows "\<exists>e. loadImages d = Inr (None, [''Images could not be loaded: '' @ messageText e])
           \<and> call_list d = Inl e"
proof (cases "call_list d")
  case (Inl e)
  then have "readable e" using assms(2) by (simp add: readableRejections_def)
  then show ?thesis using Inl by (simp add: loadImages_def caught_readable)
next
  case (Inr images)
  then show ?thesis using assms(1) by (simp add: imagesLoaded_def)
qed

lemma jobView_explicit:
  "jobView d p s =
     \<lparr>view_pipeline = p,
      view_lastRun = (case s of None \<Rightarrow> None | Some cron \<Rightarrow> map_option (toISOString d) (lastRun cron)),
      view_nextRun =
        (case s of
           None \<Rightarrow> None
         | Some cron \<Rightarrow> (case nextRuns cron of [] \<Rightarrow> None | t # later \<Rightarrow> Some (toISOString d t)))\<rparr>"
  by (auto simp: jobView_def split: option.splits)

text \<open>
  Where the handler does what it is meant to: when no dispatched call rejects with
  \<^verbatim>\<open>undefined\<close> or \<^verbatim>\<open>null\<close>, it returns the page. The errors of the page are one
  message for the clusters sub-query if one of its calls failed, then one for the jobs
  sub-query, then one for the images sub-query, each with the message of the failed call;
  and every sub-query whose calls all succeeded has its full result on the page: per
  cluster its namespaces, per pipeline the time of its last run and of its next run when
  its schedule has them.
\<close>

lemma index_collects_errors:
  assumes "readableRejections d"
  shows "\<exists>page clusterErrors jobErrors imageErrors.
     index d config version = Inr page
   \<and> page_errors page = clusterErrors @ jobErrors @ imageErrors
   \<and> (if clustersLoaded d then clusterErrors = []
       else \<exists>e. clusterErrors = [''Clusters could not be loaded: '' @ messageText e]
              \<and> (call_clusters d = Inl e
                   \<or> (\<exists>cs c. call_clusters d = Inr cs \<and> c \<in> set cs \<and> call_namespaces d c = Inl e)))
   \<and> (if jobsLoaded d then jobErrors = []
       else \<exists>e. jobErrors = [''Jobs could not be loaded: '' @ messageText e]
              \<and> (call_pipelines d = Inl e
                   \<or> (\<exists>ps p. call_pipelines d = Inr ps \<and> p \<in> set ps \<and> call_schedules d p = Inl e)))
   \<and> (if imagesLoaded d then imageErrors = []
       else \<exists>e. imageErrors = [''Images could not be loaded: '' @ messageText e]
              \<and> call_list d = Inl e)
   \<and> (\<forall>cs. clustersLoaded d \<and> call_clusters d = Inr cs \<longrightarrow>
         page_clusters page =
           Some (map (\<lambda>c. \<lparr>view_name = c, view_namespaces = projr (call_namespaces d c)\<rparr>) cs))
   \<and> (\<forall>ps. jobsLoaded d \<and> call_pipelines d = Inr ps \<longrightarrow>
         page_jobs page =
           Some (map (\<lambda>p.
                   \<lparr>view_pipeline = p,
                    view_lastRun =
                      (case projr (call_schedules d p) of
                         None \<Rightarrow> None
                       | Some cron \<Rightarrow> map_option (toISOString d) (lastRun cron)),
                    view_nextRun =
                      (case projr (call_schedules d p) of
                         None \<Rightarrow> None
                       | Some cron \<Rightarrow>
                           (case nextRuns cron of [] \<Rightarrow> None | t # later \<Rightarrow> Some (toISOString d t)))\<rparr>)
                 ps))
   \<and> (\<forall>images. call_list d = Inr images \<longrightarrow> page_images page = Some images)"
proof -
  obtain cv ce where c: "loadClusters d = Inr (cv, ce)"
    "if clustersLoaded d then ce = []
       else \<exists>e. ce = [''Clusters could not be loaded: '' @ messageText e]
              \<and> (call_clusters d = Inl e
                   \<or> (\<exists>cs c. call_clusters d = Inr cs \<and> c \<in> set cs \<and> call_namespaces d c = Inl e))"
    "\<forall>cs. clustersLoaded d \<and> call_clusters d = Inr cs \<longrightarrow>
         cv = Some (map (\<lambda>c. \<lparr>view_name = c, view_namespaces = projr (call_namespaces d c)\<rparr>) cs)"
  proof (cases "clustersLoaded d")
    case True
    then obtain cs where "call_clusters d = Inr cs"
      by (cases "call_clusters d") (auto simp: clustersLoaded_def)
    then show ?thesis using True loadClusters_ok[OF True] that by simp
  next
    case False
    from loadClusters_failed[OF False assms] obtain e views where
      r: "loadClusters d = Inr (views, [''Clusters could not be loaded: '' @ messageText e])"
      and s: "call_clusters d = Inl e
                \<or> (\<exists>cs c. call_clusters d = Inr cs \<and> c \<in> set cs \<and> call_namespaces d c = Inl e)"
      by blast
    show ?thesis
    proof (rule that[OF r])
      show "if clustersLoaded d then [''Clusters could not be loaded: '' @ messageText e] = []
        else \<exists>ea. [''Clusters could not be loaded: '' @ messageText e]
                     = [''Clusters could not be loaded: '' @ messageText ea]
              \<and> (call_clusters d = Inl ea
                   \<or> (\<exists>cs c. call_clusters d = Inr cs \<and> c \<in> set cs \<and> call_namespaces d c = Inl ea))"
        using False s by (simp only: if_False) (rule exI[of _ e], simp)
      show "\<forall>cs. clustersLoaded d \<and> call_clusters d = Inr cs \<longrightarrow>
         views = Some (map (\<lambda>c. \<lparr>view_name = c, view_namespaces = projr (call_namespaces d c)\<rparr>) cs)"
        using False by simp
    qed
  qed
  obtain jv je where j: "loadJobs d = Inr (jv, je)"
    "if jobsLoaded d then je = []
       else \<exists>e. je = [''Jobs could not be loaded: '' @ messageText e]
              \<and> (call_pipelines d = Inl e
                   \<or> (\<exists>ps p. call_pipelines d = Inr ps \<and> p \<in> set ps \<and> call_schedules d p = Inl e))"
    "\<forall>ps. jobsLoaded d \<and> call_pipelines d = Inr ps \<longrightarrow>
         jv = Some (map (\<lambda>p. jobView d p (projr (call_schedules d p))) ps)"
  proof (cases "jobsLoaded d")
    case True
    then obtain ps where "call_pipelines d = Inr ps"
      by (cases "call_pipelines d") (auto simp: jobsLoaded_def)
    then show ?thesis using True loadJobs_ok[OF True] that by simp
  next
    case False
    from loadJobs_failed[OF False assms] obtain e views where
      r: "loadJobs d = Inr (views, [''Jobs could not be loaded: '' @ messageText e])"
      and s: "call_pipelines d = Inl e
                \<or> (\<exists>ps p. call_pipelines d = Inr ps \<and> p \<in> set ps \<and> call_schedules d p = Inl e)"
      by blast
    show ?thesis
    proof (rule that[OF r])
      show "if jobsLoaded d then [''Jobs could not be loaded: '' @ messageText e] = []
        else \<exists>ea. [''Jobs could not be loaded: '' @ messageText e]
                     = [''Jobs could not be loaded: '' @ messageText ea]
              \<and> (call_pipelines d = Inl ea
                   \<or> (\<exists>ps p. call_pipelines d = Inr ps \<and> p \<in> set ps \<and> call_schedules d p = Inl ea))"
        using False s by (simp only: if_False) (rule exI[of _ e], simp)
      show "\<forall>ps. jobsLoaded d \<and> call_pipelines d = Inr ps \<longrightarrow>
         views = Some (map (\<lambda>p. jobView d p (projr (call_schedules d p))) ps)"
        using False by simp
    qed
  qed
  obtain iv ie where i: "loadImages d = Inr (iv, ie)"
    "if imagesLoaded d then ie = []
       else \<exists>e. ie = [''Images could not be loaded: '' @ messageText e] \<and> call_list d = Inl e"
    "\<forall>images. call_list d = Inr images \<longrightarrow> iv = Some images"
  proof (cases "imagesLoaded d")
    case True
    then obtain images where "call_list d = Inr images"
      by (cases "call_list d") (auto simp: imagesLoaded_def)
    then show ?thesis using True loadImages_ok that by simp
  next
    case False
    from loadImages_failed[OF False assms] obtain e where
      r: "loadImages d = Inr (None, [''Images could not be loaded: '' @ messageText e])"
      and s: "call_list d = Inl e"
      by blast
    show ?thesis
    proof (rule that[OF r])
      show "if imagesLoaded d then [''Images could not be loaded: '' @ messageText e] = []
        else \<exists>ea. [''Images could not be loaded: '' @ messageText e]
                     = [''Images could not be loaded: '' @ messageText ea] \<and> call_list d = Inl ea"
        using False s by (simp only: if_False) (rule exI[of _ e], simp)
      show "\<forall>images. call_list d = Inr images \<longrightarrow> None = Some images"
        using s by simp
    qed
  qed
  let ?page = "\<lparr>title = ''Spacegun '' @ infinity_sign @ '' Dashboard'',
                 page_clusters = cv, page_jobs = jv, page_images = iv,
                 page_config = config, page_version = version,
                 page_errors = ce @ je @ ie\<rparr>"
  have run: "index d config version = Inr ?page"
    by (simp add: index_def c(1) j(1) i(1))
  have pj: "\<forall>ps. jobsLoaded d \<and> call_pipelines d = Inr ps \<longrightarrow>
         page_jobs ?page =
           Some (map (\<lambda>p.
                   \<lparr>view_pipeline = p,
                    view_lastRun =
                      (case projr (call_schedules d p) of
                         None \<Rightarrow> None
                       | Some cron \<Rightarrow> map_option (toISOString d) (lastRun cron)),
                    view_nextRun =
                      (case projr (call_schedules d p) of
                         None \<Rightarrow> None
                       | Some cron \<Rightarrow>
                           (case nextRuns cron of [] \<Rightarrow> None | t # later \<Rightarrow> Some (toISOString d t)))\<rparr>)
                 ps)"
    using j(3) by (simp add: jobView_explicit)
  have pc: "\<forall>cs. clustersLoaded d \<and> call_clusters d = Inr cs \<longrightarrow>
         page_clusters ?page =
           Some (map (\<lambda>c. \<lparr>view_name = c, view_namespaces = projr (call_namespaces d c)\<rparr>) cs)"
    using c(3) by simp
  have pi: "\<forall>images. call_list d = Inr images \<longrightarrow> page_images ?page = Some images"
    using i(3) by simp
  have pe: "page_errors ?page = ce @ je @ ie" by simp
  show ?thesis
    by (rule exI[of _ ?page], rule exI[of _ ce], rule exI[of _ je], rule exI[of _ ie])
      (intro conjI run pe c(2) j(2) i(2) pc pj pi)
qed

section \<open>The properties at the example inputs\<close>

lemmas json_defs = deploymentJSON_def metaJSON_def specJSON_def templateJSON_def podSpecJSON_def
  containerJSON_def statusJSON_def stringMapJSON_def propertiesInOrder_def property_def
  quote_def escape_def decimal.simps

lemmas example_defs = exampleDeployment_def exampleEnv_def exampleGroup_def
  emptyWorld_def entry_def

lemmas run_defs = applySnapshot_def build_def getConfig_def getServer_def getNamespace_def
  applyDeployment_def snapshotTarget_def createImage_def setFirstContainerImage_def
  deploymentContainers_def needsUpdate_def minifyDeployment_def replaceNamespacedDeployment_def
  appliedSnapshotsEvent_def json_defs

lemmas example_defs2 = example_defs exampleItems_def exampleSnapshot_def

lemma example_run:
  "exchanges (snd (applySnapshot (exampleEnv exampleItems) exampleGroup exampleSnapshot True emptyWorld))
   = [(\<lparr>request_server = ''https://develop'', request_name = ''api'', request_namespace = ''default'',
         request_body = minifyDeployment (exampleDeployment ''api'' ''registry/api:v2'' 3)\<rparr>,
       Inr (minifyDeployment (exampleDeployment ''api'' ''registry/api:v2'' 3))),
      (\<lparr>request_server = ''https://develop'', request_name = ''new'', request_namespace = ''default'',
         request_body = minifyDeployment (exampleDeployment ''new'' ''registry/new:v1'' 1)\<rparr>,
       Inr (minifyDeployment (exampleDeployment ''new'' ''registry/new:v1'' 1)))]"
  by (simp add: example_defs2 run_defs Let_def)

theorem applySnapshot_keeps_running_image_witness:
  "deployment_image (toDeployment (snapshot_data (hd (deployments exampleSnapshot))))
     = Some \<lparr>url = ''registry/api:v1'', image_name = ''api'', tag = None\<rparr>
   \<and> deployment_image (toDeployment (request_body (fst (hd (exchanges (snd
         (applySnapshot (exampleEnv exampleItems) exampleGroup exampleSnapshot True emptyWorld)))))))
     = Some \<lparr>url = ''registry/api:v2'', image_name = ''api'', tag = None\<rparr>"
proof -
  let ?x = "hd (exchanges (snd
         (applySnapshot (exampleEnv exampleItems) exampleGroup exampleSnapshot True emptyWorld)))"
  have "deployment_image (toDeployment (request_body (fst ?x)))
     = Some \<lparr>url = ''registry/api:v2'', image_name = ''api'', tag = None\<rparr>"
  proof (rule applySnapshot_keeps_running_image
      [where env = "exampleEnv exampleItems" and grp = exampleGroup and server = "''https://develop''"
         and items = exampleItems and w = emptyWorld and snapshot = exampleSnapshot
         and c = "exampleDeployment ''api'' ''registry/api:v2'' 1"])
    show "build (exampleEnv exampleItems) (cluster exampleGroup) = Inr ''https://develop''"
      by (simp add: example_defs2 build_def getConfig_def getServer_def)
    show "listNamespacedDeployment (exampleEnv exampleItems) ''https://develop''
            (getNamespace exampleGroup) = Inr exampleItems"
      by (simp add: exampleEnv_def exampleGroup_def getNamespace_def)
    show "?x \<in> set (drop (length (exchanges emptyWorld)) (exchanges (snd
         (applySnapshot (exampleEnv exampleItems) exampleGroup exampleSnapshot True emptyWorld))))"
      by (simp add: example_run) (simp add: emptyWorld_def)
    show "find (\<lambda>d. meta_name (metadata d) = request_name (fst ?x)) exampleItems
            = Some (exampleDeployment ''api'' ''registry/api:v2'' 1)"
      by (simp add: example_run) (simp add: exampleItems_def exampleDeployment_def)
    show "deployment_image (toDeployment (exampleDeployment ''api'' ''registry/api:v2'' 1))
            = Some \<lparr>url = ''registry/api:v2'', image_name = ''api'', tag = None\<rparr>"
      by (simp add: toDeployment_def exampleDeployment_def deploymentContainers_def createImage_def)
  qed
  moreover have "deployment_image (toDeployment (snapshot_data (hd (deployments exampleSnapshot))))
     = Some \<lparr>url = ''registry/api:v1'', image_name = ''api'', tag = None\<rparr>"
    by (simp add: toDeployment_def example_defs2 deploymentContainers_def createImage_def
        minifyDeployment_def)
  ultimately show ?thesis by simp
qed

lemmas notion_defs = assignable_def currentOf_def targetOf_def requestOf_def differs_def
  accepted_def rejected_def



lemma failing_run:
  "applyDeployments (exampleEnv []) ''https://develop'' ''default'' [] True
       (deployments failingSnapshot) \<lparr>applied = [], errored = [], world = emptyWorld\<rparr>
   = (None, \<lparr>applied = [''Deployment b'', ''Deployment c''], errored = [''Deployment a''],
        world = \<lparr>exchanges =
          [(requestOf ''https://develop'' ''default'' True [] (entry ''a'' ''registry/a:v1'' 1),
            Inl (ApiError ''rejected'')),
           (requestOf ''https://develop'' ''default'' True [] (entry ''b'' ''registry/b:v1'' 1),
            Inr (snapshot_data (entry ''b'' ''registry/b:v1'' 1))),
           (requestOf ''https://develop'' ''default'' True [] (entry ''c'' ''registry/c:v1'' 1),
            Inr (snapshot_data (entry ''c'' ''registry/c:v1'' 1)))],
          events = []\<rparr>\<rparr>)"
  by (simp add: failingSnapshot_def example_defs2 run_defs notion_defs Let_def)


lemma isolated_failure_example:
  "\<exists>new.
     applyDeployments (exampleEnv []) ''https://develop'' ''default'' [] True
         (deployments failingSnapshot) \<lparr>applied = [], errored = [], world = emptyWorld\<rparr>
       = (None, \<lparr>applied = accepted new, errored = rejected new,
                 world = emptyWorld\<lparr>exchanges := exchanges emptyWorld @ new\<rparr>\<rparr>)
   \<and> map (\<lambda>x. request_name (fst x)) new = [''a'', ''b'', ''c'']
   \<and> rejected new = [''Deployment a'']
   \<and> accepted new = [''Deployment b'', ''Deployment c'']
   \<and> fst (applySnapshot (exampleEnv []) exampleGroup failingSnapshot True emptyWorld) = Inr ()"
proof -
  have b: "build (exampleEnv []) (cluster exampleGroup) = Inr ''https://develop''"
    by (simp add: example_defs2 build_def getConfig_def getServer_def)
  have n: "getNamespace exampleGroup = ''default''"
    by (simp add: exampleGroup_def getNamespace_def)
  have l: "listNamespacedDeployment (exampleEnv []) ''https://develop''
            (getNamespace exampleGroup) = Inr []"
    by (simp add: exampleEnv_def n)
  have a: "\<forall>d\<in>set (deployments failingSnapshot). assignable True [] d"
    by (simp add: failingSnapshot_def notion_defs snapshotTarget_def)
  from applySnapshot_isolates_failures[OF b l a, of emptyWorld] obtain new where new:
    "applyDeployments (exampleEnv []) ''https://develop'' ''default'' [] True
         (deployments failingSnapshot) \<lparr>applied = [], errored = [], world = emptyWorld\<rparr>
       = (None, \<lparr>applied = accepted new, errored = rejected new,
                 world = emptyWorld\<lparr>exchanges := exchanges emptyWorld @ new\<rparr>\<rparr>)"
    "map fst new = map (requestOf ''https://develop'' ''default'' True [])
                     (filter (differs True []) (deployments failingSnapshot))"
    "fst (applySnapshot (exampleEnv []) exampleGroup failingSnapshot True emptyWorld) = Inr ()"
    unfolding n by blast
  have names: "map (\<lambda>x. request_name (fst x)) new = [''a'', ''b'', ''c'']"
  proof -
    have "map (\<lambda>x. request_name (fst x)) new = map request_name (map fst new)" by simp
    also have "\<dots> = [''a'', ''b'', ''c'']"
      unfolding new(2) by (simp add: failingSnapshot_def entry_def notion_defs)
    finally show ?thesis .
  qed
  have lists: "rejected new = [''Deployment a''] \<and> accepted new = [''Deployment b'', ''Deployment c'']"
    using new(1) unfolding failing_run by simp
  show ?thesis
    by (rule exI[of _ new]) (intro conjI new(1) names conjunct1[OF lists] conjunct2[OF lists] new(3))
qed

theorem namespaces_allowed_witness:
  "cacheHolds (namespacesEnv (Some [''staging'', ''default''])) (newCache 60)
   \<and> fst (namespaces (namespacesEnv (Some [''staging'', ''default''])) (newCache 60) 100 ''develop'')
       = Inr [''default'', ''staging'']
   \<and> cacheHolds (namespacesEnv (Some [''staging'', ''default'']))
         (snd (namespaces (namespacesEnv (Some [''staging'', ''default''])) (newCache 60) 100 ''develop''))"
proof -
  let ?env = "namespacesEnv (Some [''staging'', ''default''])"
  have h: "cacheHolds ?env (newCache 60)" by (rule cacheHolds_newCache)
  have r: "fst (namespaces ?env (newCache 60) 100 ''develop'') = Inr [''default'', ''staging'']"
    by (simp add: namespaces_def calculate_def isFresh_def newCache_def listAllowedNamespaces_def
        build_def getConfig_def getServer_def namespacesEnv_def exampleEnv_def
        isNamespaceAllowed_def exampleNamespace_def)
  have "namespaces ?env (newCache 60) 100 ''develop''
          = (Inr [''default'', ''staging''], snd (namespaces ?env (newCache 60) 100 ''develop''))"
    using r by (cases "namespaces ?env (newCache 60) 100 ''develop''") simp
  from namespaces_allowed[OF h this] have "cacheHolds ?env (snd (namespaces ?env (newCache 60) 100 ''develop''))"
    by (rule conjunct1)
  with h r show ?thesis by (intro conjI)
qed

lemma namespaces_unrestricted_example:
  "fst (namespaces (namespacesEnv None) (newCache 60) 100 ''develop'')
       = Inr [''default'', ''kube-system'', ''staging'']"
  by (simp add: namespaces_def calculate_def isFresh_def newCache_def listAllowedNamespaces_def
        build_def getConfig_def getServer_def namespacesEnv_def exampleEnv_def
        isNamespaceAllowed_def exampleNamespace_def)

theorem calculate_single_flight_witness:
  "invoked (settle (arrivals noFlights [(100, 1), (101, 2), (103, 3)] ''develop'') 105 ''develop''
       (Inr [''default''])) = [''develop'']
   \<and> observed (settle (arrivals noFlights [(100, 1), (101, 2), (103, 3)] ''develop'') 105 ''develop''
       (Inr [''default''])) = [(1, Inr [''default'']), (2, Inr [''default'']), (3, Inr [''default''])]"
proof -
  have a: "inflight noFlights ''develop'' = None" by (simp add: noFlights_def)
  have b: "[(100, 1), (101, 2), (103, 3)] \<noteq> ([] :: (nat \<times> nat) list)" by simp
  have c: "\<forall>call\<in>set [(100, 1), (101, 2), (103::nat, 3::nat)].
             \<not> isFresh (flights_cache noFlights) (fst call) ''develop''"
    by (simp add: noFlights_def newCache_def isFresh_def)
  show ?thesis
    using calculate_single_flight[OF a b c, of 105 "Inr [''default'']"]
    by (simp add: noFlights_def)
qed

lemma index_example:
  "index exampleDispatcher (None :: unit option) None =
     Inr \<lparr>title = ''Spacegun '' @ infinity_sign @ '' Dashboard'',
          page_clusters =
            Some [\<lparr>view_name = ''develop'', view_namespaces = [''default'']\<rparr>,
                  \<lparr>view_name = ''live'', view_namespaces = [''default'', ''kube-system'']\<rparr>],
          page_jobs =
            Some [\<lparr>view_pipeline = examplePipeline ''first'', view_lastRun = None,
                   view_nextRun = Some ''1970-01-01T00:00:00.007Z''\<rparr>],
          page_images = Some [''api'', ''web''],
          page_config = None,
          page_version = None,
          page_errors = [''Jobs could not be loaded: timeout'']\<rparr>"
  by (simp add: index_def loadClusters_def loadJobs_def loadImages_def caught_def jobView_def
      exampleDispatcher_def examplePipeline_def)

text \<open>
  More of the examples, evaluated: an empty namespace is the default one too; the batch in
  which \<^verbatim>\<open>a\<close> is rejected ends with one event of three fields; a snapshot that equals
  the cluster but for the image sends nothing and logs nothing; a fresh cache entry is
  returned without asking the cluster.
\<close>

lemma getNamespace_empty: "getNamespace \<lparr>cluster = c, namespace = Some ''''\<rparr> = ''default''"
  by (simp add: getNamespace_def)

lemma failing_run_event:
  "applySnapshot (exampleEnv []) exampleGroup failingSnapshot True emptyWorld =
     (Inr (),
      \<lparr>exchanges =
          [(requestOf ''https://develop'' ''default'' True [] (entry ''a'' ''registry/a:v1'' 1),
            Inl (ApiError ''rejected'')),
           (requestOf ''https://develop'' ''default'' True [] (entry ''b'' ''registry/b:v1'' 1),
            Inr (snapshot_data (entry ''b'' ''registry/b:v1'' 1))),
           (requestOf ''https://develop'' ''default'' True [] (entry ''c'' ''registry/c:v1'' 1),
            Inr (snapshot_data (entry ''c'' ''registry/c:v1'' 1)))],
       events =
          [\<lparr>message = ''Applied Snapshots'', timestamp = 1000, topics = [''slack''],
            description = ''Applied Snapshots in develop '' @ infinity_sign @ '' undefined'',
            event_fields =
              [\<lparr>field_value = ''Deployment a'', field_title = ''Failure''\<rparr>,
               \<lparr>field_value = ''Deployment b'', field_title = ''Success''\<rparr>,
               \<lparr>field_value = ''Deployment c'', field_title = ''Success''\<rparr>]\<rparr>]\<rparr>)"
proof -
  have b: "build (exampleEnv []) (cluster exampleGroup) = Inr ''https://develop''"
    by (simp add: example_defs2 build_def getConfig_def getServer_def)
  have n: "getNamespace exampleGroup = ''default''"
    by (simp add: exampleGroup_def getNamespace_def)
  have l: "listNamespacedDeployment (exampleEnv []) ''https://develop'' ''default'' = Inr []"
    by (simp add: exampleEnv_def)
  show ?thesis
    by (simp add: applySnapshot_def b n l failing_run Let_def)
      (simp add: appliedSnapshotsEvent_def emptyWorld_def exampleEnv_def exampleGroup_def)
qed

lemma unchanged_snapshot_example:
  "applySnapshot (exampleEnv exampleItems) exampleGroup
      \<lparr>deployments = [entry ''web'' ''registry/web:v4'' 2]\<rparr> True emptyWorld
     = (Inr (), emptyWorld)"
  by (simp add: example_defs2 run_defs Let_def)

lemma namespaces_cached_example:
  "namespaces (namespacesEnv None)
      ((newCache 60)\<lparr>entries := (\<lambda>k. if k = ''develop'' then Some ([''default''], 70) else None)\<rparr>)
      100 ''develop''
   = (Inr [''default''],
      (newCache 60)\<lparr>entries := (\<lambda>k. if k = ''develop'' then Some ([''default''], 70) else None)\<rparr>)"
  by (simp add: namespaces_def calculate_def isFresh_def newCache_def)

section \<open>Where the code departs from the specification\<close>

lemma aborting_run:
  "applyDeployments (exampleEnv exampleItems) ''https://develop'' ''default'' exampleItems True
       (deployments abortingSnapshot) \<lparr>applied = [], errored = [], world = emptyWorld\<rparr>
   = (Some (TypeError ''Cannot set properties of undefined (setting image)''),
      \<lparr>applied = [''Deployment new''], errored = [],
        world = \<lparr>exchanges =
          [(requestOf ''https://develop'' ''default'' True exampleItems (entry ''new'' ''registry/new:v1'' 1),
            Inr (snapshot_data (entry ''new'' ''registry/new:v1'' 1)))],
          events = []\<rparr>\<rparr>)"
  by (simp add: abortingSnapshot_def containerlessEntry_def example_defs2 run_defs notion_defs Let_def)

lemma sibling_run:
  "applyDeployments (exampleEnv exampleItems) ''https://develop'' ''default'' exampleItems False
       (deployments abortingSnapshot) \<lparr>applied = [], errored = [], world = emptyWorld\<rparr>
   = (None,
      \<lparr>applied = [''Deployment new'', ''Deployment zzz''], errored = [''Deployment api''],
        world = \<lparr>exchanges =
          [(requestOf ''https://develop'' ''default'' False exampleItems (entry ''new'' ''registry/new:v1'' 1),
            Inr (snapshot_data (entry ''new'' ''registry/new:v1'' 1))),
           (requestOf ''https://develop'' ''default'' False exampleItems containerlessEntry,
            Inl (ApiError ''rejected'')),
           (requestOf ''https://develop'' ''default'' False exampleItems (entry ''zzz'' ''registry/zzz:v1'' 1),
            Inr (snapshot_data (entry ''zzz'' ''registry/zzz:v1'' 1)))],
          events = []\<rparr>\<rparr>)"
  by (simp add: abortingSnapshot_def containerlessEntry_def example_defs2 run_defs notion_defs Let_def)

lemma aborting_environment:
  "build (exampleEnv exampleItems) (cluster exampleGroup) = Inr ''https://develop''"
  "getNamespace exampleGroup = ''default''"
  "listNamespacedDeployment (exampleEnv exampleItems) ''https://develop'' ''default'' = Inr exampleItems"
  by (simp_all add: example_defs2 build_def getConfig_def getServer_def getNamespace_def)

text \<open>
  Claim C3, at a snapshot of three entries of which the second records the running
  deployment \<^verbatim>\<open>api\<close> without any container, applied with \<^verbatim>\<open>ignoreImage\<close>. The image
  assignment of the second entry is outside the \<^verbatim>\<open>try\<close> and throws: the method throws,
  \<^verbatim>\<open>api\<close> is in neither list, and the third entry is never attempted. Without
  \<^verbatim>\<open>ignoreImage\<close> the same entry is sent, its rejection is collected in
  \<^verbatim>\<open>errored\<close>, the third entry is applied and the method returns.
\<close>

theorem applySnapshot_throws_outside_try:
  "fst (applySnapshot (exampleEnv exampleItems) exampleGroup abortingSnapshot True emptyWorld)
     = Inl (TypeError ''Cannot set properties of undefined (setting image)'')
   \<and> snd (applyDeployments (exampleEnv exampleItems) ''https://develop'' ''default'' exampleItems True
           (deployments abortingSnapshot) \<lparr>applied = [], errored = [], world = emptyWorld\<rparr>)
     = \<lparr>applied = [''Deployment new''], errored = [],
        world = \<lparr>exchanges =
          [(requestOf ''https://develop'' ''default'' True exampleItems (entry ''new'' ''registry/new:v1'' 1),
            Inr (snapshot_data (entry ''new'' ''registry/new:v1'' 1)))],
          events = []\<rparr>\<rparr>
   \<and> fst (applySnapshot (exampleEnv exampleItems) exampleGroup abortingSnapshot False emptyWorld)
     = Inr ()
   \<and> map (\<lambda>x. request_name (fst x))
         (exchanges (snd (applySnapshot (exampleEnv exampleItems) exampleGroup abortingSnapshot False
            emptyWorld)))
     = [''new'', ''api'', ''zzz'']
   \<and> snd (applyDeployments (exampleEnv exampleItems) ''https://develop'' ''default'' exampleItems False
           (deployments abortingSnapshot) \<lparr>applied = [], errored = [], world = emptyWorld\<rparr>)
     = \<lparr>applied = [''Deployment new'', ''Deployment zzz''], errored = [''Deployment api''],
        world = \<lparr>exchanges =
          [(requestOf ''https://develop'' ''default'' False exampleItems (entry ''new'' ''registry/new:v1'' 1),
            Inr (snapshot_data (entry ''new'' ''registry/new:v1'' 1))),
           (requestOf ''https://develop'' ''default'' False exampleItems containerlessEntry,
            Inl (ApiError ''rejected'')),
           (requestOf ''https://develop'' ''default'' False exampleItems (entry ''zzz'' ''registry/zzz:v1'' 1),
            Inr (snapshot_data (entry ''zzz'' ''registry/zzz:v1'' 1)))],
          events = []\<rparr>\<rparr>"
  by (simp add: applySnapshot_def aborting_environment aborting_run sibling_run Let_def)
    (simp add: requestOf_def containerlessEntry_def entry_def)

text \<open>
  Claim C6, at the same snapshot applied with \<^verbatim>\<open>ignoreImage\<close>. One request was sent
  and answered before the second entry threw, so the batch of applied and errored
  deployments is not empty; the method throws before it reaches the event, and no event
  is handed over.
\<close>

theorem applySnapshot_throw_loses_event:
  "map (\<lambda>x. (request_name (fst x), isl (snd x)))
       (exchanges (snd (applySnapshot (exampleEnv exampleItems) exampleGroup abortingSnapshot True
          emptyWorld)))
     = [(''new'', False)]
   \<and> events (snd (applySnapshot (exampleEnv exampleItems) exampleGroup abortingSnapshot True
          emptyWorld))
     = []"
  by (simp add: applySnapshot_def aborting_environment aborting_run Let_def)
    (simp add: requestOf_def entry_def)

text \<open>
  Claim C8, at a group without a namespace and a snapshot of one deployment that the
  cluster does not have. The request goes to the namespace \<^verbatim>\<open>default\<close>, and the event
  describes the snapshot as applied in the namespace \<^verbatim>\<open>undefined\<close>; for the group with
  the namespace \<^verbatim>\<open>default\<close> the same request is described as applied in
  \<^verbatim>\<open>default\<close>.
\<close>

theorem absent_namespace_described_as_undefined:
  "map (\<lambda>x. request_namespace (fst x))
       (exchanges (snd (applySnapshot (exampleEnv []) \<lparr>cluster = ''develop'', namespace = None\<rparr>
          \<lparr>deployments = [entry ''new'' ''registry/new:v1'' 1]\<rparr> True emptyWorld)))
     = [''default'']
   \<and> map description
       (events (snd (applySnapshot (exampleEnv []) \<lparr>cluster = ''develop'', namespace = None\<rparr>
          \<lparr>deployments = [entry ''new'' ''registry/new:v1'' 1]\<rparr> True emptyWorld)))
     = [''Applied Snapshots in develop '' @ infinity_sign @ '' undefined'']
   \<and> map description
       (events (snd (applySnapshot (exampleEnv []) \<lparr>cluster = ''develop'', namespace = Some ''default''\<rparr>
          \<lparr>deployments = [entry ''new'' ''registry/new:v1'' 1]\<rparr> True emptyWorld)))
     = [''Applied Snapshots in develop '' @ infinity_sign @ '' default'']"
  by (simp add: example_defs2 run_defs Let_def)


end
